theory Spec2Isabelle
  imports Complex_Main "HOL-Library.Sublist" "HOL-Library.Log_Nat"
begin

section \<open>JavaScript values and built-ins used by index.js\<close>

text \<open>
  Strings are lists of code units. The model covers the code units below 256 (Latin-1),
  which is enough for every literal of index.js (the seed titles contain U+00ED, U+00E3
  and U+00E7).
\<close>

subsection \<open>Numbers\<close>

text \<open>
  A number is a double. The numbers this program computes are integers, the two
  infinities and NaN; a finite one is given by the integer it is. Not every integer is a
  double: \<open>roundDouble\<close> rounds an integer to the nearest integer that has a 53-bit
  significand, a tie going to the even significand, and \<open>toNumber\<close> is the number an
  exact integer result becomes, infinite from 2^1024 on. Both zeros are \<open>Fin 0\<close>; the
  program never tells them apart.
\<close>

datatype number = NaN | Fin int | PosInf | NegInf

definition roundDouble :: "int \<Rightarrow> int" where
  "roundDouble n =
     (if \<bar>n\<bar> \<le> 2 ^ 53 then n
      else
        (let e = nat (bitlen \<bar>n\<bar> - 53);
             q = \<bar>n\<bar> div 2 ^ e;
             r = \<bar>n\<bar> mod 2 ^ e;
             q' = (if 2 ^ e < 2 * r \<or> (2 * r = 2 ^ e \<and> odd q) then q + 1 else q)
         in sgn n * (q' * 2 ^ e)))"

definition toNumber :: "int \<Rightarrow> number" where
  "toNumber n =
     (let m = roundDouble n
      in if 2 ^ 1024 \<le> m then PosInf else if m \<le> - (2 ^ 1024) then NegInf else Fin m)"

text \<open>Negation, \<open>+\<close>, \<open>-\<close> and \<open>*\<close>: the exact result, rounded.\<close>

fun negate :: "number \<Rightarrow> number" where
  "negate NaN = NaN"
| "negate (Fin a) = Fin (- a)"
| "negate PosInf = NegInf"
| "negate NegInf = PosInf"

fun jsAdd :: "number \<Rightarrow> number \<Rightarrow> number" where
  "jsAdd NaN y = NaN"
| "jsAdd x NaN = NaN"
| "jsAdd (Fin a) (Fin b) = toNumber (a + b)"
| "jsAdd PosInf NegInf = NaN"
| "jsAdd NegInf PosInf = NaN"
| "jsAdd PosInf y = PosInf"
| "jsAdd x PosInf = PosInf"
| "jsAdd NegInf y = NegInf"
| "jsAdd x NegInf = NegInf"

definition jsSub :: "number \<Rightarrow> number \<Rightarrow> number" where
  "jsSub x y = jsAdd x (negate y)"

fun jsMul :: "number \<Rightarrow> number \<Rightarrow> number" where
  "jsMul NaN y = NaN"
| "jsMul x NaN = NaN"
| "jsMul (Fin a) (Fin b) = toNumber (a * b)"
| "jsMul (Fin a) PosInf = (if a = 0 then NaN else if 0 < a then PosInf else NegInf)"
| "jsMul (Fin a) NegInf = (if a = 0 then NaN else if 0 < a then NegInf else PosInf)"
| "jsMul PosInf (Fin b) = (if b = 0 then NaN else if 0 < b then PosInf else NegInf)"
| "jsMul NegInf (Fin b) = (if b = 0 then NaN else if 0 < b then NegInf else PosInf)"
| "jsMul PosInf PosInf = PosInf"
| "jsMul PosInf NegInf = NegInf"
| "jsMul NegInf PosInf = NegInf"
| "jsMul NegInf NegInf = PosInf"

text \<open>Math.max and Math.min of two numbers: NaN if one of them is NaN.\<close>

fun jsMax :: "number \<Rightarrow> number \<Rightarrow> number" where
  "jsMax NaN y = NaN"
| "jsMax x NaN = NaN"
| "jsMax PosInf y = PosInf"
| "jsMax x PosInf = PosInf"
| "jsMax NegInf y = y"
| "jsMax x NegInf = x"
| "jsMax (Fin a) (Fin b) = Fin (max a b)"

fun jsMin :: "number \<Rightarrow> number \<Rightarrow> number" where
  "jsMin NaN y = NaN"
| "jsMin x NaN = NaN"
| "jsMin NegInf y = NegInf"
| "jsMin x NegInf = NegInf"
| "jsMin PosInf y = y"
| "jsMin x PosInf = x"
| "jsMin (Fin a) (Fin b) = Fin (min a b)"

subsection \<open>String.prototype.toLowerCase and String.prototype.includes\<close>

text \<open>
  On Latin-1 the lower-case mapping of Unicode moves A-Z (65-90) and the capital letters
  192-222 other than the multiplication sign 215 up by 32 and leaves the rest alone.
\<close>

definition lowerChar :: "char \<Rightarrow> char" where
  "lowerChar c =
     (let n = (of_char c :: nat)
      in if (65 \<le> n \<and> n \<le> 90) \<or> (192 \<le> n \<and> n \<le> 222 \<and> n \<noteq> 215)
         then char_of (n + 32) else c)"

definition toLowerCase :: "string \<Rightarrow> string" where
  "toLowerCase s = map lowerChar s"

text \<open>\<open>s.includes(q)\<close>: \<open>q\<close> occurs in \<open>s\<close> at some position; the search tries
  each position from the left.\<close>

fun includesStr :: "string \<Rightarrow> string \<Rightarrow> bool" where
  "includesStr [] q = (q = [])"
| "includesStr (c # s) q = (prefix q (c # s) \<or> includesStr s q)"

subsection \<open>parseInt(string, 10)\<close>

text \<open>
  parseInt turns its argument into a string, skips leading white space, reads an optional
  sign and then the longest run of decimal digits; with no digit the result is NaN,
  otherwise the double nearest to the integer the digits spell (V8 hands the digits to
  its correctly rounding string-to-double conversion). With the radix 10 given there is
  no 0x prefix. White space on Latin-1: TAB, LF, VT, FF, CR, SP, NBSP.
\<close>

definition isWhiteSpace :: "char \<Rightarrow> bool" where
  "isWhiteSpace c = ((of_char c :: nat) \<in> {9, 10, 11, 12, 13, 32, 160})"

definition isDigit :: "char \<Rightarrow> bool" where
  "isDigit c = (48 \<le> (of_char c :: nat) \<and> (of_char c :: nat) \<le> 57)"

definition digitsValue :: "string \<Rightarrow> int" where
  "digitsValue ds = foldl (\<lambda>acc c. 10 * acc + (int (of_char c) - 48)) 0 ds"

definition parseInt :: "string \<Rightarrow> number" where
  "parseInt s =
     (let t = dropWhile isWhiteSpace s;
          neg = (t \<noteq> [] \<and> hd t = CHR ''-'');
          u = (if t \<noteq> [] \<and> (hd t = CHR ''-'' \<or> hd t = CHR ''+'') then tl t else t);
          ds = takeWhile isDigit u
      in if ds = [] then NaN
         else toNumber (if neg then - digitsValue ds else digitsValue ds))"

subsection \<open>Array.prototype.slice(start, end)\<close>

text \<open>
  An index is first made an integer or an infinity (NaN is 0). A negative index counts
  from the end; both indices are clamped to the array.
\<close>

fun relIndex :: "nat \<Rightarrow> number \<Rightarrow> nat" where
  "relIndex len NaN = 0"
| "relIndex len NegInf = 0"
| "relIndex len PosInf = len"
| "relIndex len (Fin i) = (if i < 0 then nat (max (int len + i) 0) else min (nat i) len)"

definition slice :: "'a list \<Rightarrow> number \<Rightarrow> number \<Rightarrow> 'a list" where
  "slice xs start fin =
     (let k = relIndex (length xs) start; f = relIndex (length xs) fin
      in take (f - k) (drop k xs))"

subsection \<open>Truthiness of an optional string\<close>

text \<open>
  A query parameter or a field of a request body is absent (\<open>undefined\<close>, \<open>None\<close>) or a
  string. \<open>!x\<close> holds of \<open>undefined\<close> and of the empty string, so a required field
  counts as missing in both cases.
\<close>

fun given :: "string option \<Rightarrow> bool" where
  "given None = False"
| "given (Some s) = (s \<noteq> [])"

subsection \<open>Property lookup on a plain object\<close>

text \<open>
  The like counters are plain objects used as dictionaries, read and written with a
  computed key (\<open>obj[id]\<close>). Such an object is a finite map of its own properties, but a
  read of a key that is not an own property continues on Object.prototype, whose
  members exist on every object that JSON.parse returns. \<open>protoNames\<close> lists them
  as Node.js (V8) has them.
\<close>

definition protoNames :: "string list" where
  "protoNames =
     [''constructor'', ''__defineGetter__'', ''__defineSetter__'', ''hasOwnProperty'',
      ''__lookupGetter__'', ''__lookupSetter__'', ''isPrototypeOf'',
      ''propertyIsEnumerable'', ''toString'', ''valueOf'', ''__proto__'',
      ''toLocaleString'']"

text \<open>
  A counter slot of a stored document holds a JSON number or a JSON string. The
  numbers are the integers among the doubles.
\<close>

datatype cell = Num int | Str string

text \<open>
  The value of \<open>obj[k]\<close>: \<open>undefined\<close>, the own property, or the member of
  Object.prototype named \<open>k\<close> (a built-in function; for \<open>__proto__\<close> the prototype
  object itself).
\<close>

datatype jsval = Undefined | Stored cell | Builtin string

definition getProp :: "(string \<rightharpoonup> cell) \<Rightarrow> string \<Rightarrow> jsval" where
  "getProp obj k =
     (case obj k of
        Some v \<Rightarrow> Stored v
      | None \<Rightarrow> if k \<in> set protoNames then Builtin k else Undefined)"

text \<open>
  \<open>obj[k] = v\<close> for a primitive \<open>v\<close>: it creates or overwrites the own property, except
  that \<open>__proto__\<close>, when it is not an own property, is the accessor of
  Object.prototype, whose setter ignores a primitive.
\<close>

definition setProp :: "(string \<rightharpoonup> cell) \<Rightarrow> string \<Rightarrow> cell \<Rightarrow> (string \<rightharpoonup> cell)" where
  "setProp obj k v = (if k = ''__proto__'' \<and> obj k = None then obj else obj(k \<mapsto> v))"

text \<open>The string a built-in member turns into when \<open>+\<close> concatenates it.\<close>

definition builtinText :: "string \<Rightarrow> string" where
  "builtinText k =
     (if k = ''__proto__'' then ''[object Object]''
      else ''function '' @ (if k = ''constructor'' then ''Object'' else k)
           @ ''() { [native code] }'')"

text \<open>\<open>v || 0\<close>: the number 0, the empty string and \<open>undefined\<close> are falsy.\<close>

fun orZero :: "jsval \<Rightarrow> jsval" where
  "orZero Undefined = Stored (Num 0)"
| "orZero (Stored (Num n)) = Stored (Num n)"
| "orZero (Stored (Str s)) = (if s = [] then Stored (Num 0) else Stored (Str s))"
| "orZero (Builtin k) = Builtin k"

text \<open>
  \<open>(v || 0) + 1\<close>: addition on a number (0 and \<open>undefined\<close> count from 0, as does the
  empty string), concatenation with "1" on a non-empty string or a built-in member. The
  sum of a stored number and 1 is rounded like every sum; it is finite.
\<close>

fun incremented :: "jsval \<Rightarrow> cell" where
  "incremented Undefined = Num 1"
| "incremented (Stored (Num n)) = Num (roundDouble (n + 1))"
| "incremented (Stored (Str s)) = (if s = [] then Num 1 else Str (s @ ''1''))"
| "incremented (Builtin k) = Str (builtinText k @ ''1'')"

section \<open>The document\<close>

text \<open>
  The entries of the collections, with the fields the seed data and the admin endpoint
  give them. A field that the handlers test before use (\<open>x.title && ...\<close>) is optional;
  \<open>sourceId\<close> is \<open>None\<close> when it is null or absent. Highlights have the fields of
  articles. The model covers the documents of this shape, which are the ones the seed
  data and the handlers produce.
\<close>

record article =
  a_id :: string
  a_title :: "string option"
  a_summary :: "string option"
  a_url :: string
  a_image :: string
  a_publishedAt :: string
  a_sourceId :: "string option"

record image =
  i_id :: string
  i_title :: "string option"
  i_url :: string
  i_thumb :: string
  i_sourceId :: "string option"

record source =
  s_id :: string
  s_name :: string
  s_url :: string

record topic =
  t_id :: string
  t_topic :: string
  t_score :: int

datatype json =
  JNull | JBool bool | JNum int | JStr string | JArr "json list" | JObj "(string \<times> json) list"

fun truthy :: "json \<Rightarrow> bool" where
  "truthy JNull = False"
| "truthy (JBool b) = b"
| "truthy (JNum n) = (n \<noteq> 0)"
| "truthy (JStr s) = (s \<noteq> [])"
| "truthy (JArr _) = True"
| "truthy (JObj _) = True"

record feedbackEntry =
  f_id :: string
  f_message :: string
  f_context :: json
  f_createdAt :: string

text \<open>
  \<open>likes\<close> is an object of counter objects, keyed by \<open>type + 's'\<close>; \<open>feedback\<close> is
  absent until the first feedback is posted.
\<close>

record document =
  highlights :: "article list"
  news :: "article list"
  images :: "image list"
  sources :: "source list"
  trending :: "topic list"
  likes :: "string \<rightharpoonup> (string \<rightharpoonup> cell)"
  feedback :: "feedbackEntry list option"
  createdAt :: string

section \<open>The JSON file (readDB, writeDB, getInitialData)\<close>

text \<open>
  db.json is missing, holds the JSON text of a document, or holds text that JSON.parse
  rejects. JSON.parse (JSON.stringify d) is \<open>d\<close> for the documents of this model
  (strings, integers, arrays and plain objects), so the file is modelled by the document
  its text denotes. The medium is taken to be writable.
\<close>

datatype dbfile = Missing | Holds document | Unparsable

datatype exn = SyntaxError | TypeError

text \<open>
  The literal of \<open>getInitialData\<close> (index.js lines 25-50), with \<open>now\<close> the reading of
  the clock. In the source the object of \<open>likes\<close> is closed with \<open>]\<close> (line 48); the
  model reads the nested object that the literal spells out.
\<close>

definition getInitialData :: "string \<Rightarrow> document" where
  "getInitialData now =
     \<lparr> highlights =
         [\<lparr> a_id = ''h1'', a_title = Some ''Destaque: Economia global em foco'',
            a_summary = Some ''Resumo do destaque.'',
            a_url = ''https://exemplo.com/destaque-1'',
            a_image = ''https://picsum.photos/seed/hl1/800/450'',
            a_publishedAt = now, a_sourceId = Some ''s1'' \<rparr>],
       news =
         [\<lparr> a_id = ''n1'', a_title = Some ''Mercados subiram hoje'',
            a_summary = Some (''Resumo da not'' @ [CHR 0xED] @ ''cia de mercado.''),
            a_url = ''https://noticias.ex/n1'',
            a_image = ''https://picsum.photos/seed/n1/400/300'',
            a_publishedAt = now, a_sourceId = Some ''s1'' \<rparr>,
          \<lparr> a_id = ''n2'',
            a_title = Some (''Tecnologia: nova vers'' @ [CHR 0xE3] @ ''o lan''
                            @ [CHR 0xE7] @ ''ada''),
            a_summary = Some (''Resumo da not'' @ [CHR 0xED] @ ''cia tech.''),
            a_url = ''https://noticias.ex/n2'',
            a_image = ''https://picsum.photos/seed/n2/400/300'',
            a_publishedAt = now, a_sourceId = Some ''s2'' \<rparr>],
       images =
         [\<lparr> i_id = ''img1'', i_title = Some ''Paisagem'',
            i_url = ''https://picsum.photos/seed/img1/1200/800'',
            i_thumb = ''https://picsum.photos/seed/img1/400/300'',
            i_sourceId = Some ''s3'' \<rparr>],
       sources =
         [\<lparr> s_id = ''s1'', s_name = ''Exemplo News'', s_url = ''https://noticias.ex'' \<rparr>,
          \<lparr> s_id = ''s2'', s_name = ''TechToday'', s_url = ''https://techtoday.ex'' \<rparr>,
          \<lparr> s_id = ''s3'', s_name = ''Pics'', s_url = ''https://picsum.photos'' \<rparr>],
       trending =
         [\<lparr> t_id = ''t1'', t_topic = ''Economia'', t_score = 92 \<rparr>,
          \<lparr> t_id = ''t2'', t_topic = ''IA'', t_score = 88 \<rparr>],
       likes =
         [''articles'' \<mapsto> [''n1'' \<mapsto> Num 12, ''n2'' \<mapsto> Num 5],
          ''images'' \<mapsto> [''img1'' \<mapsto> Num 3]],
       feedback = None,
       createdAt = now \<rparr>"

text \<open>
  \<open>readDB\<close> returns the document and the file as it leaves it: a missing file is first
  written with the seed document. \<open>now\<close> is the clock reading \<open>getInitialData\<close> takes.
\<close>

definition writeDB :: "document \<Rightarrow> dbfile" where
  "writeDB d = Holds d"

definition readDB :: "string \<Rightarrow> dbfile \<Rightarrow> exn + (document \<times> dbfile)" where
  "readDB now f =
     (case f of
        Missing \<Rightarrow> Inr (getInitialData now, writeDB (getInitialData now))
      | Holds d \<Rightarrow> Inr (d, f)
      | Unparsable \<Rightarrow> Inl SyntaxError)"

section \<open>Pagination\<close>

text \<open>
  \<open>paginate\<close> is called by the handlers only, with values of the query. An argument is
  \<open>undefined\<close> or a value that parseInt reads through its string; \<open>ArgString s\<close> is
  such a value with the string \<open>s\<close>. An undefined argument takes the default, the
  number 1 or 10, whose string is "1" or "10".
\<close>

datatype arg = ArgUndefined | ArgString string

fun argText :: "string \<Rightarrow> arg \<Rightarrow> string" where
  "argText d ArgUndefined = d"
| "argText d (ArgString s) = s"

text \<open>\<open>x || d\<close> on the result of parseInt: NaN and 0 are falsy.\<close>

fun orElse :: "number \<Rightarrow> number \<Rightarrow> number" where
  "orElse NaN d = d"
| "orElse (Fin n) d = (if n = 0 then d else Fin n)"
| "orElse PosInf d = PosInf"
| "orElse NegInf d = NegInf"

text \<open>
  \<open>Math.ceil(array.length / l)\<close>. For an array, which has fewer than 2^32 elements, and
  an integer \<open>l\<close> the rounded quotient has the ceiling of the exact one.
\<close>

fun ceilDiv :: "nat \<Rightarrow> number \<Rightarrow> number" where
  "ceilDiv n NaN = NaN"
| "ceilDiv n PosInf = Fin 0"
| "ceilDiv n NegInf = Fin 0"
| "ceilDiv n (Fin k) =
     (if k = 0 then (if n = 0 then NaN else PosInf)
      else Fin \<lceil>real n / real_of_int k\<rceil>)"

record 'a envelope =
  page :: number
  limit :: number
  total :: nat
  pages :: number
  data :: "'a list"

definition paginate :: "'a list \<Rightarrow> arg \<Rightarrow> arg \<Rightarrow> 'a envelope" where
  "paginate array pageArg limitArg =
     (let p = jsMax (Fin 1) (orElse (parseInt (argText ''1'' pageArg)) (Fin 1));
          l = jsMax (Fin 1)
                (jsMin (Fin 100) (orElse (parseInt (argText ''10'' limitArg)) (Fin 10)));
          start = jsMul (jsSub p (Fin 1)) l
      in \<lparr> page = p, limit = l, total = length array,
           pages = ceilDiv (length array) l,
           data = slice array start (jsAdd start l) \<rparr>)"

section \<open>The request handlers\<close>

text \<open>
  A handler takes the file and the request and returns what it sends, or the exception
  it throws, together with the file as it leaves it. A response is a JSON body with its
  status and Cache-Control header, or an \<open>{error: message}\<close> body with its status.
\<close>

datatype 'a response = Json nat "string option" 'a | Failure nat string

type_synonym 'a outcome = "(exn + 'a response) \<times> dbfile"

fun queryArg :: "string option \<Rightarrow> arg" where
  "queryArg None = ArgUndefined"
| "queryArg (Some s) = ArgString s"

text \<open>\<open>x.field && x.field.toLowerCase().includes(ql)\<close>\<close>

fun fieldIncludes :: "string option \<Rightarrow> string \<Rightarrow> bool" where
  "fieldIncludes None ql = False"
| "fieldIncludes (Some s) ql = (s \<noteq> [] \<and> includesStr (toLowerCase s) ql)"

subsection \<open>GET /api/v1/news\<close>

text \<open>
  A parameter of \<open>req.query\<close> is absent, a string or, when the URL repeats it
  (\<open>?q=a&q=b\<close>), an array of strings. An array is truthy, is \<open>===\<close> to no string, has no
  method \<open>toLowerCase\<close>, and has as its string its elements joined by commas. The nested
  objects that the bracket syntax of the query parser gives are not modelled.
\<close>

datatype qvalue = Text string | Repeated "string list"

fun joinComma :: "string list \<Rightarrow> string" where
  "joinComma [] = []"
| "joinComma [x] = x"
| "joinComma (x # y # ys) = x @ '','' @ joinComma (y # ys)"

fun valueArg :: "qvalue option \<Rightarrow> arg" where
  "valueArg None = ArgUndefined"
| "valueArg (Some (Text s)) = ArgString s"
| "valueArg (Some (Repeated xs)) = ArgString (joinComma xs)"

fun truthyValue :: "qvalue option \<Rightarrow> bool" where
  "truthyValue None = False"
| "truthyValue (Some (Text s)) = (s \<noteq> [])"
| "truthyValue (Some (Repeated xs)) = True"

text \<open>\<open>x.sourceId === source\<close>\<close>

fun strictEq :: "string option \<Rightarrow> qvalue option \<Rightarrow> bool" where
  "strictEq fld (Some (Text s)) = (fld = Some s)"
| "strictEq fld (Some (Repeated xs)) = False"
| "strictEq fld None = False"

definition getNewsQuery ::
  "string \<Rightarrow> qvalue option \<Rightarrow> qvalue option \<Rightarrow> qvalue option \<Rightarrow> qvalue option \<Rightarrow> dbfile
   \<Rightarrow> article envelope outcome" where
  "getNewsQuery now q pageQ limitQ sourceQ f =
     (case readDB now f of
        Inl e \<Rightarrow> (Inl e, f)
      | Inr (db, f1) \<Rightarrow>
          (let items = news db;
               items1 = (if truthyValue sourceQ
                         then filter (\<lambda>x. strictEq (a_sourceId x) sourceQ) items
                         else items)
           in (case q of
                 Some (Repeated xs) \<Rightarrow> (Inl TypeError, f1)
               | Some (Text s) \<Rightarrow>
                   (Inr (Json 200 (Some ''public, max-age=30'')
                           (paginate
                              (if s = [] then items1
                               else filter (\<lambda>x. fieldIncludes (a_title x) (toLowerCase s)
                                                 \<or> fieldIncludes (a_summary x) (toLowerCase s))
                                           items1)
                              (valueArg pageQ) (valueArg limitQ))), f1)
               | None \<Rightarrow>
                   (Inr (Json 200 (Some ''public, max-age=30'')
                           (paginate items1 (valueArg pageQ) (valueArg limitQ))), f1))))"

text \<open>The handler on parameters that are absent or strings.\<close>

definition getNews ::
  "string \<Rightarrow> string option \<Rightarrow> string option \<Rightarrow> string option \<Rightarrow> string option \<Rightarrow> dbfile
   \<Rightarrow> article envelope outcome" where
  "getNews now q pageQ limitQ sourceQ f =
     getNewsQuery now (map_option Text q) (map_option Text pageQ) (map_option Text limitQ)
       (map_option Text sourceQ) f"

subsection \<open>GET /api/v1/news/:id\<close>

text \<open>
  The body is \<open>{...item, likes}\<close>: the article and the value read for its counter.
  \<open>db.likes.articles\<close> is read without a test, so a document without that counter
  object makes the handler throw.
\<close>

definition getArticle :: "string \<Rightarrow> string \<Rightarrow> dbfile \<Rightarrow> (article \<times> jsval) outcome" where
  "getArticle now ident f =
     (case readDB now f of
        Inl e \<Rightarrow> (Inl e, f)
      | Inr (db, f1) \<Rightarrow>
          (case find (\<lambda>n. a_id n = ident) (news db) of
             None \<Rightarrow> (Inr (Failure 404 ''Not found''), f1)
           | Some item \<Rightarrow>
               (case likes db ''articles'' of
                  None \<Rightarrow> (Inl TypeError, f1)
                | Some counters \<Rightarrow>
                    (Inr (Json 200 (Some ''public, max-age=30'')
                            (item, orZero (getProp counters (a_id item)))), f1))))"

subsection \<open>GET /api/v1/search\<close>




subsection \<open>POST /api/v1/like\<close>

text \<open>
  Lines 156-157, on the document in memory: the counter object under \<open>type + 's'\<close> is
  created when the key is absent, then its slot \<open>id\<close> is read, incremented and written.
\<close>

definition counterTable :: "document \<Rightarrow> string \<Rightarrow> (string \<rightharpoonup> cell)" where
  "counterTable db key = (case likes db key of None \<Rightarrow> Map.empty | Some c \<Rightarrow> c)"

definition liked :: "document \<Rightarrow> string \<Rightarrow> string \<Rightarrow> document" where
  "liked db t ident =
     (let key = t @ ''s'';
          table = counterTable db key
      in db\<lparr> likes := (likes db)(key \<mapsto> setProp table ident (incremented (getProp table ident))) \<rparr>)"

record likeReply =
  l_id :: string
  l_type :: string
  l_likes :: jsval

definition postLike :: "string \<Rightarrow> string option \<Rightarrow> string option \<Rightarrow> dbfile \<Rightarrow> likeReply outcome" where
  "postLike now ty ident f =
     (case (ty, ident) of
        (Some t, Some i) \<Rightarrow>
          if t = [] \<or> i = [] then (Inr (Failure 400 ''type and id required''), f)
          else
            (case readDB now f of
               Inl e \<Rightarrow> (Inl e, f)
             | Inr (db, f1) \<Rightarrow>
                 (let db1 = liked db t i
                  in (Inr (Json 200 None
                             \<lparr> l_id = i, l_type = t,
                               l_likes = getProp (counterTable db1 (t @ ''s'')) i \<rparr>),
                      writeDB db1)))
      | _ \<Rightarrow> (Inr (Failure 400 ''type and id required''), f))"

subsection \<open>POST /api/v1/feedback\<close>

text \<open>
  \<open>nano\<close> is the string nanoid(8) returns, \<open>now\<close> the clock when the entry is made,
  \<open>seedNow\<close> the clock if readDB has to seed the file. The body \<open>{status: 'ok'}\<close> is
  modelled by its one string.
\<close>

definition postFeedback ::
  "string \<Rightarrow> string \<Rightarrow> string \<Rightarrow> string option \<Rightarrow> json option \<Rightarrow> dbfile \<Rightarrow> string outcome" where
  "postFeedback seedNow now nano message ctx f =
     (case message of
        None \<Rightarrow> (Inr (Failure 400 ''message required''), f)
      | Some m \<Rightarrow>
          if m = [] then (Inr (Failure 400 ''message required''), f)
          else
            (case readDB seedNow f of
               Inl e \<Rightarrow> (Inl e, f)
             | Inr (db, f1) \<Rightarrow>
                 (let fb = (case feedback db of None \<Rightarrow> [] | Some es \<Rightarrow> es);
                      new = \<lparr> f_id = nano, f_message = m,
                              f_context = (case ctx of
                                             None \<Rightarrow> JNull
                                           | Some c \<Rightarrow> if truthy c then c else JNull),
                              f_createdAt = now \<rparr>
                  in (Inr (Json 200 None ''ok''),
                      writeDB (db\<lparr> feedback := Some (fb @ [new]) \<rparr>)))))"

subsection \<open>POST /api/v1/admin/news\<close>

text \<open>\<open>s || ''\<close> and \<open>s || null\<close> on an optional string.\<close>

fun orEmpty :: "string option \<Rightarrow> string" where
  "orEmpty None = []"
| "orEmpty (Some s) = s"

fun orNull :: "string option \<Rightarrow> string option" where
  "orNull None = None"
| "orNull (Some s) = (if s = [] then None else Some s)"

definition newArticle ::
  "string \<Rightarrow> string \<Rightarrow> string \<Rightarrow> string option \<Rightarrow> string \<Rightarrow> string option \<Rightarrow> string option
   \<Rightarrow> article" where
  "newArticle now nano title summary url img sourceId =
     \<lparr> a_id = ''n'' @ nano, a_title = Some title, a_summary = Some (orEmpty summary),
       a_url = url, a_image = orEmpty img, a_publishedAt = now,
       a_sourceId = orNull sourceId \<rparr>"

definition postAdminNews ::
  "string \<Rightarrow> string \<Rightarrow> string \<Rightarrow> string option \<Rightarrow> string option \<Rightarrow> string option
   \<Rightarrow> string option \<Rightarrow> string option \<Rightarrow> dbfile \<Rightarrow> article outcome" where
  "postAdminNews seedNow now nano title summary url img sourceId f =
     (case (title, url) of
        (Some t, Some u) \<Rightarrow>
          if t = [] \<or> u = [] then (Inr (Failure 400 ''title and url required''), f)
          else
            (case readDB seedNow f of
               Inl e \<Rightarrow> (Inl e, f)
             | Inr (db, f1) \<Rightarrow>
                 (let item = newArticle now nano t summary u img sourceId
                  in (Inr (Json 200 None item), writeDB (db\<lparr> news := item # news db \<rparr>))))
      | _ \<Rightarrow> (Inr (Failure 400 ''title and url required''), f))"

section \<open>Notions of the specification\<close>

text \<open>
  A field contains \<open>q\<close> case-insensitively when it is present and the lower-cased
  \<open>q\<close> is a substring of its lower-cased text. An item without the field does not match.
\<close>

definition containsCI :: "string option \<Rightarrow> string \<Rightarrow> bool" where
  "containsCI fld q =
     (case fld of None \<Rightarrow> False | Some s \<Rightarrow> sublist (toLowerCase q) (toLowerCase s))"

text \<open>The two filters of GET /news, each applied only when its parameter is given.\<close>

definition keepSource :: "string option \<Rightarrow> article list \<Rightarrow> article list" where
  "keepSource sourceQ xs = (if given sourceQ then filter (\<lambda>x. a_sourceId x = sourceQ) xs else xs)"

definition keepMatching :: "string option \<Rightarrow> article list \<Rightarrow> article list" where
  "keepMatching q xs =
     (case q of
        None \<Rightarrow> xs
      | Some s \<Rightarrow>
          if s = [] then xs
          else filter (\<lambda>x. containsCI (a_title x) s \<or> containsCI (a_summary x) s) xs)"


text \<open>The JSON body a handler sent with a success status, if it sent one.\<close>

fun sent :: "(exn + 'a response) \<times> dbfile \<Rightarrow> 'a option" where
  "sent (Inr (Json st cc b), f) = Some b"
| "sent (Inr (Failure st msg), f) = None"
| "sent (Inl e, f) = None"

text \<open>The decimal numeral of a natural number, as a query string spells a page or a limit.\<close>

definition digitChar :: "nat \<Rightarrow> char" where
  "digitChar d = char_of (48 + d)"

fun decimal :: "nat \<Rightarrow> string" where
  "decimal n = (if n < 10 then [digitChar n] else decimal (n div 10) @ [digitChar (n mod 10)])"

text \<open>The integer a finite number is.\<close>

fun intOf :: "number \<Rightarrow> int" where
  "intOf (Fin n) = n"
| "intOf NaN = 0"
| "intOf PosInf = 0"
| "intOf NegInf = 0"

text \<open>A number from 2^53 on, where not every integer is a double.\<close>

fun beyond :: "number \<Rightarrow> bool" where
  "beyond (Fin m) = (2 ^ 53 \<le> m)"
| "beyond PosInf = True"
| "beyond NaN = False"
| "beyond NegInf = False"

text \<open>The ids of the articles a file holds, in their order.\<close>

fun newsIds :: "dbfile \<Rightarrow> string list" where
  "newsIds (Holds d) = map a_id (news d)"
| "newsIds Missing = []"
| "newsIds Unparsable = []"

section \<open>Properties\<close>

subsection \<open>Built-ins\<close>

lemma includesStr_sublist: "includesStr s q = sublist q s"
  by (induction s) (auto simp: sublist_Cons_right)

subsection \<open>Numbers\<close>

lemma roundDouble_exact: "\<bar>n\<bar> \<le> 2 ^ 53 \<Longrightarrow> roundDouble n = n"
  by (simp add: roundDouble_def)

lemma roundDouble_large:
  assumes "2 ^ 53 \<le> n"
  shows "2 ^ 53 \<le> roundDouble n"
proof (cases "n = 2 ^ 53")
  case True
  then show ?thesis using roundDouble_exact [of n] by simp
next
  case False
  with assms have big: "2 ^ 53 < n" by simp
  then have pos: "0 < n" by (smt (verit) zero_less_power)
  define b where "b = nat (bitlen n)"
  from bitlen_bounds [OF pos] have lo: "2 ^ nat (bitlen n - 1) \<le> n" and hi: "n < 2 ^ b"
    by (simp_all add: b_def)
  have b54: "54 \<le> b"
  proof (rule ccontr)
    assume "\<not> 54 \<le> b"
    then have "b \<le> 53" by simp
    then have "(2::int) ^ b \<le> 2 ^ 53" by (intro power_increasing) simp_all
    with hi big show False by simp
  qed
  define e where "e = b - 53"
  have e1: "1 \<le> e" using b54 by (simp add: e_def)
  have e: "nat (bitlen n - 53) = e" using pos b54 by (simp add: e_def b_def)
  have ab: "\<bar>n\<bar> = n" using pos by simp
  have bl: "nat (bitlen n - 1) = 52 + e" using b54 by (simp add: e_def b_def)
  have le: "(2::int) ^ 52 * 2 ^ e \<le> n" using lo by (simp add: bl power_add)
  have "(2::int) ^ 52 * 2 ^ e div 2 ^ e \<le> n div 2 ^ e"
    by (rule zdiv_mono1 [OF le]) simp
  then have q: "2 ^ 52 \<le> n div 2 ^ e" by simp
  define q' where
    "q' = (if 2 ^ e < 2 * (n mod 2 ^ e) \<or> (2 * (n mod 2 ^ e) = 2 ^ e \<and> odd (n div 2 ^ e))
           then n div 2 ^ e + 1 else n div 2 ^ e)"
  have q': "2 ^ 52 \<le> q'" using q by (simp add: q'_def)
  have "(2::int) ^ 1 \<le> 2 ^ e" using e1 by (intro power_increasing) simp_all
  then have "(2::int) ^ 52 * 2 \<le> q' * 2 ^ e"
    using q' by (intro mult_mono) simp_all
  then have m: "2 ^ 53 \<le> q' * 2 ^ e" by simp
  have "roundDouble n = q' * 2 ^ e"
    unfolding roundDouble_def ab e Let_def q'_def using big pos by simp
  with m show ?thesis by simp
qed

lemma toNumber_exact: "\<bar>n\<bar> \<le> 2 ^ 53 \<Longrightarrow> toNumber n = Fin n"
proof -
  assume a: "\<bar>n\<bar> \<le> 2 ^ 53"
  have "(2::int) ^ 53 < 2 ^ 1024" by simp
  with a have "n < 2 ^ 1024" "- (2 ^ 1024) < n" by linarith+
  then show ?thesis using a by (simp add: toNumber_def roundDouble_exact)
qed

lemma toNumber_large: "2 ^ 53 \<le> n \<Longrightarrow> beyond (toNumber n)"
  using roundDouble_large [of n] by (simp add: toNumber_def Let_def)

lemma jsMul_beyond: "beyond a \<Longrightarrow> 1 \<le> l \<Longrightarrow> beyond (jsMul a (Fin l))"
proof (cases a)
  case (Fin m)
  assume "beyond a" "1 \<le> l"
  then have "2 ^ 53 \<le> m" "1 \<le> l" using Fin by simp_all
  then have "2 ^ 53 * 1 \<le> m * l" by (intro mult_mono) simp_all
  then show ?thesis using Fin by (simp add: toNumber_large)
qed simp_all

subsection \<open>slice\<close>

lemma slice_exact:
  assumes "0 \<le> s" "0 \<le> l"
  shows "slice xs (Fin s) (Fin (s + l)) = take (nat l) (drop (nat s) xs)"
proof (cases "nat s < length xs")
  case True
  then have k: "relIndex (length xs) (Fin s) = nat s"
    using assms by simp
  have f: "relIndex (length xs) (Fin (s + l)) = min (nat s + nat l) (length xs)"
    using assms by (simp add: nat_add_distrib)
  show ?thesis
  proof (cases "nat s + nat l \<le> length xs")
    case True
    then show ?thesis by (simp add: slice_def k f del: relIndex.simps)
  next
    case False
    then have "length (drop (nat s) xs) \<le> nat l" by simp
    then show ?thesis using False by (simp add: slice_def k f del: relIndex.simps)
  qed
next
  case False
  then have "relIndex (length xs) (Fin s) = length xs"
    using assms by simp
  then show ?thesis using False by (simp add: slice_def del: relIndex.simps)
qed

lemma relIndex_beyond:
  assumes "beyond a" "int (length xs) \<le> 2 ^ 53"
  shows "relIndex (length xs) a = length xs"
proof (cases a)
  case (Fin m)
  with assms have "int (length xs) \<le> m" by simp
  then show ?thesis using Fin by simp
qed (use assms in simp_all)

lemma slice_beyond:
  assumes "beyond a" "int (length xs) \<le> 2 ^ 53"
  shows "slice xs a b = []"
  using relIndex_beyond [OF assms] by (simp add: slice_def del: relIndex.simps)

lemma slice_rounded:
  assumes "0 \<le> s" "0 \<le> l" "l \<le> 2 ^ 53" "int (length xs) \<le> 2 ^ 53"
  shows "slice xs (toNumber s) (jsAdd (toNumber s) (Fin l)) = take (nat l) (drop (nat s) xs)"
proof (cases "s < 2 ^ 53")
  case False
  then have "beyond (toNumber s)" by (simp add: toNumber_large)
  then have "slice xs (toNumber s) (jsAdd (toNumber s) (Fin l)) = []"
    using assms(4) by (rule slice_beyond)
  moreover have "length xs \<le> nat s" using False assms(4) by linarith
  ultimately show ?thesis by simp
next
  case True
  then have s: "toNumber s = Fin s" using assms(1) by (simp add: toNumber_exact)
  show ?thesis
  proof (cases "s + l \<le> 2 ^ 53")
    case True
    then have "toNumber (s + l) = Fin (s + l)" using assms(1,2) by (simp add: toNumber_exact)
    then show ?thesis using slice_exact [OF assms(1,2)] by (simp add: s)
  next
    case False
    then have "beyond (toNumber (s + l))" by (simp add: toNumber_large)
    then have f: "relIndex (length xs) (toNumber (s + l)) = length xs"
      using assms(4) by (rule relIndex_beyond)
    have k: "relIndex (length xs) (Fin s) = min (nat s) (length xs)"
      using assms(1) by simp
    have "length xs - nat s \<le> nat l" using False assms(1,4) by linarith
    then have "take (nat l) (drop (nat s) xs) = drop (nat s) xs" by simp
    moreover have "take (length xs - min (nat s) (length xs)) (drop (min (nat s) (length xs)) xs)
                     = drop (nat s) xs"
      by (cases "nat s \<le> length xs") (simp_all add: min_def)
    ultimately show ?thesis by (simp add: slice_def s f k del: relIndex.simps)
  qed
qed

lemma slice_Nil: "slice [] a b = []"
  by (simp add: slice_def)

lemma pages_bounds:
  assumes "1 \<le> (l::int)"
  shows "int n \<le> \<lceil>real n / real_of_int l\<rceil> * l \<and> (\<lceil>real n / real_of_int l\<rceil> - 1) * l < int n"
proof -
  let ?c = "\<lceil>real n / real_of_int l\<rceil>"
  have lpos: "0 < real_of_int l" using assms by simp
  have "real n \<le> real_of_int ?c * real_of_int l"
    by (rule ceiling_divide_upper [OF lpos])
  then have "real_of_int (int n) \<le> real_of_int (?c * l)" by simp
  then have a: "int n \<le> ?c * l" by (simp only: of_int_le_iff)
  have "(real_of_int ?c - 1) * real_of_int l < real n"
    by (rule ceiling_divide_lower [OF lpos])
  then have "real_of_int ((?c - 1) * l) < real_of_int (int n)" by simp
  then have b: "(?c - 1) * l < int n" by (simp only: of_int_less_iff)
  from a b show ?thesis by simp
qed

lemma pages_div: "\<lceil>real n / real_of_int l\<rceil> = - ((- int n) div l)"
  using ceiling_divide_eq_div [of "int n" l, where ?'a = real] by simp

declare decimal.simps [simp del]

lemmas js_eval = toLowerCase_def lowerChar_def char_of_def bit_Suc_0_iff
  parseInt_def isWhiteSpace_def isDigit_def digitsValue_def toNumber_exact

subsection \<open>Decimal numerals\<close>

lemma digitChar_code: "d < 10 \<Longrightarrow> (of_char (digitChar d) :: nat) = 48 + d"
  by (simp add: digitChar_def)

lemma isDigit_digitChar: "d < 10 \<Longrightarrow> isDigit (digitChar d)"
  by (simp add: isDigit_def digitChar_code)

lemma isDigit_not_space: "isDigit c \<Longrightarrow> \<not> isWhiteSpace c"
  by (auto simp: isDigit_def isWhiteSpace_def)

lemma isDigit_not_sign: "isDigit c \<Longrightarrow> c \<noteq> CHR ''-'' \<and> c \<noteq> CHR ''+''"
  by (auto simp: isDigit_def)

lemma decimal_digits: "c \<in> set (decimal n) \<Longrightarrow> isDigit c"
proof (induction n arbitrary: c rule: decimal.induct)
  case (1 n)
  show ?case
  proof (cases "n < 10")
    case True
    then show ?thesis using "1.prems" by (simp add: decimal.simps [of n] isDigit_digitChar)
  next
    case False
    then show ?thesis
      using "1.prems" "1.IH" by (auto simp: decimal.simps [of n] isDigit_digitChar)
  qed
qed

lemma decimal_not_Nil: "decimal n \<noteq> []"
  by (simp add: decimal.simps [of n])

lemma digitsValue_snoc:
  "digitsValue (ds @ [c]) = 10 * digitsValue ds + (int (of_char c) - 48)"
  by (simp add: digitsValue_def)

lemma digitsValue_decimal: "digitsValue (decimal n) = int n"
proof (induction n rule: decimal.induct)
  case (1 n)
  show ?case
  proof (cases "n < 10")
    case True
    then show ?thesis
      by (simp add: decimal.simps [of n] digitsValue_def digitChar_code)
  next
    case False
    then have "digitsValue (decimal (n div 10)) = int (n div 10)" by (rule "1.IH")
    then show ?thesis
      using False
      by (simp add: decimal.simps [of n] digitsValue_snoc digitChar_code zdiv_int zmod_int)
  qed
qed

lemma parseInt_decimal: "parseInt (decimal n) = toNumber (int n)"
proof -
  obtain c cs where d: "decimal n = c # cs"
    using decimal_not_Nil [of n] by (cases "decimal n") auto
  have c: "isDigit c" using decimal_digits [of c n] d by simp
  have w: "dropWhile isWhiteSpace (decimal n) = decimal n"
    using isDigit_not_space [OF c] by (simp add: d)
  have t: "takeWhile isDigit (decimal n) = decimal n"
    using decimal_digits by (simp add: takeWhile_eq_all_conv)
  show ?thesis
    unfolding parseInt_def w Let_def
    using isDigit_not_sign [OF c] d t digitsValue_decimal [of n] by simp
qed

subsection \<open>paginate\<close>

lemma page_value:
  "jsMax (Fin 1) (orElse x (Fin 1))
     = (case x of NaN \<Rightarrow> Fin 1 | Fin n \<Rightarrow> if n < 1 then Fin 1 else Fin n
                | PosInf \<Rightarrow> PosInf | NegInf \<Rightarrow> Fin 1)"
  by (cases x) (auto simp: max_def)

lemma limit_value:
  "jsMax (Fin 1) (jsMin (Fin 100) (orElse x (Fin 10)))
     = (case x of
          NaN \<Rightarrow> Fin 10
        | Fin n \<Rightarrow> if n = 0 then Fin 10 else if n < 1 then Fin 1
                   else if 100 < n then Fin 100 else Fin n
        | PosInf \<Rightarrow> Fin 100
        | NegInf \<Rightarrow> Fin 1)"
  by (cases x) (auto simp: max_def min_def)

lemma limit_range:
  "\<exists>l. jsMax (Fin 1) (jsMin (Fin 100) (orElse x (Fin 10))) = Fin l \<and> 1 \<le> l \<and> l \<le> 100"
  by (cases x) (auto simp: max_def min_def)

lemma start_data:
  assumes "1 \<le> l" "l \<le> 100" "int (length xs) \<le> 2 ^ 53"
  shows "slice xs (jsMul (jsSub (Fin p) (Fin 1)) (Fin l))
           (jsAdd (jsMul (jsSub (Fin p) (Fin 1)) (Fin l)) (Fin l))
         = (if 1 \<le> p then take (nat l) (drop (nat ((p - 1) * l)) xs)
            else slice xs (jsMul (jsSub (Fin p) (Fin 1)) (Fin l))
                   (jsAdd (jsMul (jsSub (Fin p) (Fin 1)) (Fin l)) (Fin l)))"
proof (cases "1 \<le> p")
  case False
  then show ?thesis by simp
next
  case True
  have sub: "jsSub (Fin p) (Fin 1) = toNumber (p - 1)" by (simp add: jsSub_def)
  have l53: "l \<le> 2 ^ 53" using assms(2) by simp
  show ?thesis
  proof (cases "p - 1 \<le> 2 ^ 53")
    case True
    then have "toNumber (p - 1) = Fin (p - 1)"
      using \<open>1 \<le> p\<close> by (simp add: toNumber_exact)
    then have "jsMul (jsSub (Fin p) (Fin 1)) (Fin l) = toNumber ((p - 1) * l)"
      by (simp add: sub)
    moreover have "0 \<le> (p - 1) * l" using \<open>1 \<le> p\<close> assms(1) by simp
    ultimately show ?thesis
      using slice_rounded [of "(p - 1) * l" l xs] assms(1,3) l53 \<open>1 \<le> p\<close> by simp
  next
    case False
    then have b: "beyond (toNumber (p - 1))" by (simp add: toNumber_large)
    then have "beyond (jsMul (jsSub (Fin p) (Fin 1)) (Fin l))"
      using assms(1) by (simp add: sub jsMul_beyond)
    then have e: "slice xs (jsMul (jsSub (Fin p) (Fin 1)) (Fin l))
                    (jsAdd (jsMul (jsSub (Fin p) (Fin 1)) (Fin l)) (Fin l)) = []"
      using assms(3) by (rule slice_beyond)
    have "2 ^ 53 * 1 \<le> (p - 1) * l"
      using False assms(1) by (intro mult_mono) simp_all
    then have "length xs \<le> nat ((p - 1) * l)" using assms(3) by linarith
    then show ?thesis using e \<open>1 \<le> p\<close> by simp
  qed
qed

lemma paginate_valid:
  assumes "parseInt (argText ''1'' pageArg) = Fin p" "1 \<le> p"
      and "parseInt (argText ''10'' limitArg) = Fin l" "1 \<le> l" "l \<le> 100"
      and "int (length items) \<le> 2 ^ 53"
  shows "paginate items pageArg limitArg =
           \<lparr> page = Fin p, limit = Fin l, total = length items,
             pages = Fin \<lceil>real (length items) / real_of_int l\<rceil>,
             data = take (nat l) (drop (nat ((p - 1) * l)) items) \<rparr>"
proof -
  have p: "jsMax (Fin 1) (orElse (parseInt (argText ''1'' pageArg)) (Fin 1)) = Fin p"
    using assms(1,2) by (simp add: page_value)
  have l: "jsMax (Fin 1) (jsMin (Fin 100) (orElse (parseInt (argText ''10'' limitArg)) (Fin 10)))
             = Fin l"
    using assms(3,4,5) by (simp add: limit_value)
  show ?thesis
    unfolding paginate_def p l Let_def
    using start_data [OF assms(4,5,6), of p] assms(2,4) by simp
qed

lemma fieldIncludes_containsCI:
  "q \<noteq> [] \<Longrightarrow> fieldIncludes fld (toLowerCase q) = containsCI fld q"
proof (cases fld)
  case None
  then show ?thesis by (simp add: containsCI_def)
next
  case (Some s)
  assume q: "q \<noteq> []"
  show ?thesis
  proof (cases "s = []")
    case True
    then show ?thesis
      using q Some by (simp add: containsCI_def toLowerCase_def)
  next
    case False
    then show ?thesis
      using Some by (simp add: containsCI_def includesStr_sublist)
  qed
qed

lemma economia_matches: "containsCI (Some ''Economia global em foco'') ''ECONOMIA''"
  by (simp add: containsCI_def includesStr_sublist [symmetric] js_eval)

lemma readDB_cases:
  "f \<noteq> Unparsable \<Longrightarrow> \<exists>db. readDB now f = Inr (db, Holds db)"
  by (cases f) (simp_all add: readDB_def writeDB_def)

lemma readDB_Holds: "readDB now f = Inr (db, f1) \<Longrightarrow> f1 = Holds db"
  by (cases f) (auto simp: readDB_def writeDB_def)

lemma paginate_beyond:
  assumes "beyond (parseInt (argText ''1'' pageArg))"
      and "parseInt (argText ''10'' limitArg) = Fin l" "1 \<le> l" "l \<le> 100"
      and "int (length items) < 2 ^ 53"
  shows "paginate items pageArg limitArg =
           \<lparr> page = parseInt (argText ''1'' pageArg), limit = Fin l, total = length items,
             pages = Fin \<lceil>real (length items) / real_of_int l\<rceil>,
             data = [] \<rparr>"
proof (cases "parseInt (argText ''1'' pageArg)")
  case (Fin m)
  with assms(1) have m: "2 ^ 53 \<le> m" by simp
  then have m1: "1 \<le> m" by (smt (verit) one_le_power)
  have len: "int (length items) \<le> 2 ^ 53" using assms(5) by simp
  have "(2 ^ 53 - 1) * 1 \<le> (m - 1) * l"
    using m assms(3) by (intro mult_mono) simp_all
  then have "length items \<le> nat ((m - 1) * l)" using assms(5) by simp
  then show ?thesis
    using paginate_valid [OF Fin m1 assms(2,3,4) len] by (simp add: Fin)
next
  case PosInf
  have l: "jsMax (Fin 1) (jsMin (Fin 100) (orElse (parseInt (argText ''10'' limitArg)) (Fin 10)))
             = Fin l"
    using assms(2,3,4) by (simp add: limit_value)
  have s: "jsMul (jsSub PosInf (Fin 1)) (Fin l) = PosInf"
    using assms(3) by (simp add: jsSub_def)
  have "slice items PosInf (jsAdd PosInf (Fin l)) = []"
    using assms(5) by (intro slice_beyond) simp_all
  then show ?thesis
    unfolding paginate_def l Let_def using assms(3) by (simp add: PosInf s)
qed (use assms(1) in simp_all)

text \<open>
  C2, as stated, fails: a page above 2^53 is not echoed back. The page of
  \<open>?page=9007199254740993\<close> (2^53 + 1) is 9007199254740992.
\<close>

theorem paginate_page_not_echoed:
  "digitsValue ''9007199254740993'' = 2 ^ 53 + 1
   \<and> page (paginate ([] :: nat list) (ArgString ''9007199254740993'') (ArgString ''10''))
       = Fin 9007199254740992
   \<and> page (paginate ([] :: nat list) (ArgString ''9007199254740993'') (ArgString ''10''))
       \<noteq> Fin (2 ^ 53 + 1)"
proof -
  have d: "digitsValue ''9007199254740993'' = 9007199254740993"
    by (simp add: digitsValue_def)
  have r: "toNumber 9007199254740993 = Fin 9007199254740992"
    by code_simp
  have p: "parseInt ''9007199254740993'' = Fin 9007199254740992"
    by (simp add: parseInt_def isWhiteSpace_def isDigit_def d r)
  have "page (paginate ([] :: nat list) (ArgString ''9007199254740993'') (ArgString ''10''))
          = Fin 9007199254740992"
    by (simp add: paginate_def p page_value Let_def)
  then show ?thesis by (simp add: d)
qed

text \<open>
  C2, amended. For every list (an array has fewer than 2^32 elements), every page
  \<open>p \<ge> 1\<close> and every limit \<open>l\<close> in [1,100], each given to \<open>paginate\<close> as its decimal
  numeral: the limit is echoed, total is the length of the input, pages is the ceiling
  of total / l (the least page count whose pages hold the whole input), and data is the
  elements from index (p-1)*l up to p*l in input order, max 0 (min l (total - (p-1)*l))
  of them. The page is echoed when \<open>p\<close> is at most 2^53; in general it is the double
  nearest to \<open>p\<close>.
\<close>

theorem paginate_envelope:
  assumes "1 \<le> p" "1 \<le> l" "l \<le> 100" "length items < 2 ^ 32"
  shows "page (paginate items (ArgString (decimal p)) (ArgString (decimal l)))
           = toNumber (int p)
         \<and> (p \<le> 2 ^ 53 \<longrightarrow>
              page (paginate items (ArgString (decimal p)) (ArgString (decimal l)))
                = Fin (int p))
         \<and> limit (paginate items (ArgString (decimal p)) (ArgString (decimal l)))
             = Fin (int l)
         \<and> total (paginate items (ArgString (decimal p)) (ArgString (decimal l)))
             = length items
         \<and> pages (paginate items (ArgString (decimal p)) (ArgString (decimal l)))
             = Fin \<lceil>real (length items) / real l\<rceil>
         \<and> data (paginate items (ArgString (decimal p)) (ArgString (decimal l)))
             = take l (drop ((p - 1) * l) items)
         \<and> int (length (data (paginate items (ArgString (decimal p)) (ArgString (decimal l)))))
             = max 0 (min (int l) (int (length items) - (int p - 1) * int l))
         \<and> (\<forall>i < length (data (paginate items (ArgString (decimal p))
                                    (ArgString (decimal l)))).
               data (paginate items (ArgString (decimal p)) (ArgString (decimal l))) ! i
                 = items ! ((p - 1) * l + i))
         \<and> int (length items) \<le> \<lceil>real (length items) / real l\<rceil> * int l
         \<and> (\<lceil>real (length items) / real l\<rceil> - 1) * int l < int (length items)"
proof -
  let ?e = "paginate items (ArgString (decimal p)) (ArgString (decimal l))"
  have pl: "parseInt (argText ''10'' (ArgString (decimal l))) = Fin (int l)"
    using assms(3) by (simp add: parseInt_decimal toNumber_exact)
  have pp: "parseInt (argText ''1'' (ArgString (decimal p))) = toNumber (int p)"
    by (simp add: parseInt_decimal)
  have l1: "1 \<le> int l" "int l \<le> 100" using assms(2,3) by simp_all
  have "(2::nat) ^ 32 \<le> 2 ^ 53" by simp
  then have len: "length items < 2 ^ 53" using assms(4) by linarith
  then have len': "int (length items) < 2 ^ 53" "int (length items) \<le> 2 ^ 53"
    by (simp_all add: nat_less_iff flip: of_nat_power)
  have "(int p - 1) * int l = int ((p - 1) * l)" using assms(1) by (simp add: of_nat_diff)
  then have idx: "nat ((int p - 1) * int l) = (p - 1) * l" by (simp only: nat_int)
  have tk: "take (nat (int l)) (drop (nat ((int p - 1) * int l)) items)
              = take l (drop ((p - 1) * l) items)"
    by (simp only: idx nat_int)
  have eq: "?e = \<lparr> page = toNumber (int p), limit = Fin (int l), total = length items,
                   pages = Fin \<lceil>real (length items) / real l\<rceil>,
                   data = take l (drop ((p - 1) * l) items) \<rparr>
            \<and> (p \<le> 2 ^ 53 \<longrightarrow> toNumber (int p) = Fin (int p))"
  proof (cases "p \<le> 2 ^ 53")
    case True
    then have "int p \<le> 2 ^ 53" by (simp flip: of_nat_power)
    then have t: "toNumber (int p) = Fin (int p)" by (simp add: toNumber_exact)
    have "?e = \<lparr> page = Fin (int p), limit = Fin (int l), total = length items,
                 pages = Fin \<lceil>real (length items) / real_of_int (int l)\<rceil>,
                 data = take (nat (int l)) (drop (nat ((int p - 1) * int l)) items) \<rparr>"
      using assms(1,2,3) len
      by (intro paginate_valid) (simp_all add: parseInt_decimal t toNumber_exact)
    then show ?thesis using t tk by (simp add: idx)
  next
    case False
    then have "2 ^ 53 \<le> int p" by (simp flip: of_nat_power)
    then have b: "beyond (toNumber (int p))" by (rule toNumber_large)
    have "?e = \<lparr> page = parseInt (argText ''1'' (ArgString (decimal p))),
                 limit = Fin (int l), total = length items,
                 pages = Fin \<lceil>real (length items) / real_of_int (int l)\<rceil>, data = [] \<rparr>"
      using assms(1,2,3) len b
      by (intro paginate_beyond) (simp_all add: parseInt_decimal toNumber_exact)
    moreover have "length items \<le> (p - 1) * l"
    proof -
      have "(2::nat) ^ 53 - 1 \<le> p - 1" using False by simp
      then have "(2 ^ 53 - 1) * 1 \<le> (p - 1) * l" using assms(2) by (intro mult_le_mono) simp_all
      then show ?thesis using len by simp
    qed
    ultimately show ?thesis using False by (simp add: parseInt_decimal)
  qed
  have nth: "\<forall>i < length (data ?e). data ?e ! i = items ! ((p - 1) * l + i)"
    using eq by auto
  have ln: "int (length (data ?e)) = max 0 (min (int l) (int (length items) - (int p - 1) * int l))"
  proof -
    define s where "s = (p - 1) * l"
    have "length (data ?e) = min l (length items - s)" using eq by (simp add: s_def)
    moreover have "int (min l (length items - s)) = max 0 (min (int l) (int (length items) - int s))"
      by arith
    moreover have "int s = (int p - 1) * int l"
      using assms(1) by (simp add: s_def of_nat_diff)
    ultimately show ?thesis by simp
  qed
  have pg: "int (length items) \<le> \<lceil>real (length items) / real l\<rceil> * int l
            \<and> (\<lceil>real (length items) / real l\<rceil> - 1) * int l < int (length items)"
    using pages_bounds [OF l1(1), of "length items"] by simp
  from eq nth ln pg show ?thesis by simp
qed

theorem paginate_envelope_witness:
  "page (paginate [10, 20, 30, 40, 50 :: nat] (ArgString ''2'') (ArgString ''2'')) = Fin 2
   \<and> limit (paginate [10, 20, 30, 40, 50 :: nat] (ArgString ''2'') (ArgString ''2'')) = Fin 2
   \<and> total (paginate [10, 20, 30, 40, 50 :: nat] (ArgString ''2'') (ArgString ''2'')) = 5
   \<and> pages (paginate [10, 20, 30, 40, 50 :: nat] (ArgString ''2'') (ArgString ''2'')) = Fin 3
   \<and> data (paginate [10, 20, 30, 40, 50 :: nat] (ArgString ''2'') (ArgString ''2''))
       = [30, 40]"
proof -
  have d: "decimal 2 = ''2''" by (simp add: decimal.simps [of 2] digitChar_def char_of_def bit_Suc_0_iff)
  have c: "\<lceil>real (length [10, 20, 30, 40, 50 :: nat]) / real (2::nat)\<rceil> = 3"
    by (simp add: pages_div [of _ 2, simplified])
  show ?thesis
    using paginate_envelope [of 2 2 "[10, 20, 30, 40, 50 :: nat]"]
    by (simp add: d c toNumber_exact)
qed

text \<open>
  C3, as stated, fails: a limit out of range does not fall back to 10. The limit of
  \<open>?limit=1000\<close> is 100 and the limit of \<open>?limit=-5\<close> is 1.
\<close>

theorem paginate_limit_not_default:
  "limit (paginate ([] :: nat list) ArgUndefined (ArgString ''1000'')) = Fin 100
   \<and> limit (paginate ([] :: nat list) ArgUndefined (ArgString ''-5'')) = Fin 1
   \<and> limit (paginate ([] :: nat list) ArgUndefined (ArgString ''1000'')) \<noteq> Fin 10
   \<and> limit (paginate ([] :: nat list) ArgUndefined (ArgString ''-5'')) \<noteq> Fin 10"
  by (simp add: paginate_def Let_def js_eval)

text \<open>
  C3, amended. For every list and every page and limit that is missing or a string,
  \<open>paginate\<close> returns an envelope. The page is 1 when the argument is missing, has no
  leading integer, or reads as an integer below 1; otherwise it is that integer as
  parseInt reads it, the nearest double, which is infinite for the longest digit runs.
  The limit is 10 when the argument is missing, has no leading integer, or reads as 0;
  an integer below 0 is clamped to 1 and one above 100 to 100. Total is the length of
  the list, pages the ceiling of total / limit, and the data is the slice that page and
  limit select (empty for an infinite page).
\<close>

theorem paginate_total:
  "page (paginate items pageArg limitArg)
     = (case parseInt (argText ''1'' pageArg) of
          NaN \<Rightarrow> Fin 1
        | Fin n \<Rightarrow> if n < 1 then Fin 1 else Fin n
        | PosInf \<Rightarrow> PosInf
        | NegInf \<Rightarrow> Fin 1)
   \<and> limit (paginate items pageArg limitArg)
     = (case parseInt (argText ''10'' limitArg) of
          NaN \<Rightarrow> Fin 10
        | Fin n \<Rightarrow> if n = 0 then Fin 10 else if n < 1 then Fin 1
                   else if 100 < n then Fin 100 else Fin n
        | PosInf \<Rightarrow> Fin 100
        | NegInf \<Rightarrow> Fin 1)
   \<and> 1 \<le> intOf (limit (paginate items pageArg limitArg))
   \<and> intOf (limit (paginate items pageArg limitArg)) \<le> 100
   \<and> limit (paginate items pageArg limitArg)
       = Fin (intOf (limit (paginate items pageArg limitArg)))
   \<and> total (paginate items pageArg limitArg) = length items
   \<and> pages (paginate items pageArg limitArg)
       = Fin \<lceil>real (length items)
               / real_of_int (intOf (limit (paginate items pageArg limitArg)))\<rceil>
   \<and> (length items < 2 ^ 32 \<longrightarrow>
        data (paginate items pageArg limitArg)
          = (case page (paginate items pageArg limitArg) of
               Fin p \<Rightarrow>
                 take (nat (intOf (limit (paginate items pageArg limitArg))))
                   (drop (nat ((p - 1) * intOf (limit (paginate items pageArg limitArg))))
                      items)
             | _ \<Rightarrow> []))"
proof -
  define P where "P = jsMax (Fin 1) (orElse (parseInt (argText ''1'' pageArg)) (Fin 1))"
  obtain l where L: "jsMax (Fin 1) (jsMin (Fin 100)
                       (orElse (parseInt (argText ''10'' limitArg)) (Fin 10))) = Fin l"
    and l1: "1 \<le> l" and l100: "l \<le> 100"
    using limit_range by blast
  define D where "D = slice items (jsMul (jsSub P (Fin 1)) (Fin l))
                        (jsAdd (jsMul (jsSub P (Fin 1)) (Fin l)) (Fin l))"
  have eq: "paginate items pageArg limitArg
              = \<lparr> page = P, limit = Fin l, total = length items,
                  pages = Fin \<lceil>real (length items) / real_of_int l\<rceil>, data = D \<rparr>"
    unfolding paginate_def P_def [symmetric] L Let_def D_def using l1 by simp
  have pv: "(case parseInt (argText ''1'' pageArg) of
          NaN \<Rightarrow> Fin 1
        | Fin n \<Rightarrow> if n < 1 then Fin 1 else Fin n
        | PosInf \<Rightarrow> PosInf
        | NegInf \<Rightarrow> Fin 1) = P"
    by (simp add: P_def page_value)
  have lv: "(case parseInt (argText ''10'' limitArg) of
          NaN \<Rightarrow> Fin 10
        | Fin n \<Rightarrow> if n = 0 then Fin 10 else if n < 1 then Fin 1
                   else if 100 < n then Fin 100 else Fin n
        | PosInf \<Rightarrow> Fin 100
        | NegInf \<Rightarrow> Fin 1) = Fin l"
    using L by (simp add: limit_value)
  have dv: "length items < 2 ^ 32 \<longrightarrow>
              D = (case P of Fin p \<Rightarrow> take (nat l) (drop (nat ((p - 1) * l)) items) | _ \<Rightarrow> [])"
  proof
    assume "length items < 2 ^ 32"
    moreover have "(2::nat) ^ 32 \<le> 2 ^ 53" by simp
    ultimately have "length items < 2 ^ 53" by linarith
    then have len: "int (length items) \<le> 2 ^ 53" by simp
    have P1: "P \<noteq> NaN \<and> P \<noteq> NegInf \<and> (\<forall>p. P = Fin p \<longrightarrow> 1 \<le> p)"
      unfolding pv [symmetric] by (cases "parseInt (argText ''1'' pageArg)") auto
    show "D = (case P of Fin p \<Rightarrow> take (nat l) (drop (nat ((p - 1) * l)) items) | _ \<Rightarrow> [])"
    proof (cases P)
      case (Fin p)
      then have "1 \<le> p" using P1 by simp
      then show ?thesis
        using start_data [OF l1 l100 len, of p] by (simp add: D_def Fin)
    next
      case PosInf
      have "jsMul (jsSub PosInf (Fin 1)) (Fin l) = PosInf"
        using l1 by (simp add: jsSub_def)
      moreover have "slice items PosInf (jsAdd PosInf (Fin l)) = []"
        using len by (intro slice_beyond) simp_all
      ultimately show ?thesis by (simp add: D_def PosInf)
    qed (use P1 in simp_all)
  qed
  show ?thesis
    unfolding eq pv lv using dv l1 l100 by (simp cong: number.case_cong)
qed

theorem paginate_total_witness:
  "page (paginate [10, 20, 30 :: nat] (ArgString ''abc'') (ArgString ''0'')) = Fin 1
   \<and> limit (paginate [10, 20, 30 :: nat] (ArgString ''abc'') (ArgString ''0'')) = Fin 10
   \<and> page (paginate [10, 20, 30 :: nat] (ArgString ''-3'') (ArgString ''250'')) = Fin 1
   \<and> limit (paginate [10, 20, 30 :: nat] (ArgString ''-3'') (ArgString ''250'')) = Fin 100
   \<and> limit (paginate [10, 20, 30 :: nat] ArgUndefined (ArgString ''-7'')) = Fin 1
   \<and> data (paginate [10, 20, 30 :: nat] ArgUndefined (ArgString ''-7'')) = [10]
   \<and> data (paginate [10, 20, 30 :: nat] (ArgString ''2'') (ArgString ''2abc'')) = [30]"
proof -
  have a: "limit (paginate [10, 20, 30 :: nat] ArgUndefined (ArgString ''-7'')) = Fin 1"
          "page (paginate [10, 20, 30 :: nat] ArgUndefined (ArgString ''-7'')) = Fin 1"
    using paginate_total [of "[10, 20, 30 :: nat]" ArgUndefined "ArgString ''-7''"]
    by (simp_all add: js_eval)
  have b: "limit (paginate [10, 20, 30 :: nat] (ArgString ''2'') (ArgString ''2abc'')) = Fin 2"
          "page (paginate [10, 20, 30 :: nat] (ArgString ''2'') (ArgString ''2abc'')) = Fin 2"
    using paginate_total [of "[10, 20, 30 :: nat]" "ArgString ''2''" "ArgString ''2abc''"]
    by (simp_all add: js_eval)
  have c: "data (paginate [10, 20, 30 :: nat] ArgUndefined (ArgString ''-7'')) = [10]"
    using paginate_total [of "[10, 20, 30 :: nat]" ArgUndefined "ArgString ''-7''"]
    by (simp add: js_eval cong: number.case_cong)
  have d: "data (paginate [10, 20, 30 :: nat] (ArgString ''2'') (ArgString ''2abc'')) = [30]"
    using paginate_total [of "[10, 20, 30 :: nat]" "ArgString ''2''" "ArgString ''2abc''"]
    by (simp add: js_eval cong: number.case_cong)
  show ?thesis
    using paginate_total [of "[10, 20, 30 :: nat]" "ArgString ''abc''" "ArgString ''0''"]
          paginate_total [of "[10, 20, 30 :: nat]" "ArgString ''-3''" "ArgString ''250''"]
    by (simp add: a c d js_eval)
qed

subsection \<open>readDB\<close>

text \<open>
  C1, as stated, fails: the like counters of the seed document are not empty. The
  counter of article n1 is 12.
\<close>

theorem seed_like_counters_not_empty:
  "counterTable (getInitialData ''2024-01-01T00:00:00.000Z'') ''articles'' ''n1'' = Some (Num 12)
   \<and> counterTable (getInitialData ''2024-01-01T00:00:00.000Z'') ''articles'' \<noteq> Map.empty
   \<and> counterTable (getInitialData ''2024-01-01T00:00:00.000Z'') ''images'' \<noteq> Map.empty"
proof -
  let ?d = "getInitialData ''2024-01-01T00:00:00.000Z''"
  have a: "counterTable ?d ''articles'' ''n1'' = Some (Num 12)"
    by (simp add: counterTable_def getInitialData_def)
  have b: "counterTable ?d ''images'' ''img1'' = Some (Num 3)"
    by (simp add: counterTable_def getInitialData_def)
  from a have "counterTable ?d ''articles'' \<noteq> Map.empty" by (metis option.distinct(1))
  moreover from b have "counterTable ?d ''images'' \<noteq> Map.empty" by (metis option.distinct(1))
  ultimately show ?thesis using a by simp
qed

text \<open>
  C1, amended. When db.json is missing, \<open>readDB\<close> writes the seed document and returns
  exactly that document, and a later read returns it again. The seed document holds
  the fixed highlight h1, the articles n1 and n2, the image img1, the sources s1, s2 and
  s3, the trending topics Economia (92) and IA (88), the like counters 12 and 5 for the
  articles n1 and n2 and 3 for the image img1, no feedback, and the time of its creation.
\<close>

theorem load_seeds_missing_file:
  "readDB now Missing = Inr (getInitialData now, Holds (getInitialData now))
   \<and> readDB later (Holds (getInitialData now)) = Inr (getInitialData now, Holds (getInitialData now))
   \<and> map a_id (highlights (getInitialData now)) = [''h1'']
   \<and> map a_id (news (getInitialData now)) = [''n1'', ''n2'']
   \<and> map i_id (images (getInitialData now)) = [''img1'']
   \<and> map s_id (sources (getInitialData now)) = [''s1'', ''s2'', ''s3'']
   \<and> map t_topic (trending (getInitialData now)) = [''Economia'', ''IA'']
   \<and> map t_score (trending (getInitialData now)) = [92, 88]
   \<and> likes (getInitialData now)
       = [''articles'' \<mapsto> [''n1'' \<mapsto> Num 12, ''n2'' \<mapsto> Num 5],
          ''images'' \<mapsto> [''img1'' \<mapsto> Num 3]]
   \<and> feedback (getInitialData now) = None
   \<and> createdAt (getInitialData now) = now
   \<and> map a_publishedAt (highlights (getInitialData now) @ news (getInitialData now))
       = [now, now, now]"
  by (simp add: readDB_def writeDB_def getInitialData_def)

subsection \<open>GET /api/v1/search\<close>






subsection \<open>The write endpoints reject a request without a required field\<close>

text \<open>
  C6. A request to /like without type or id, to /feedback without message, or to
  /admin/news without title or url (the field absent or empty) is answered 400 with an
  error message, and the file is exactly as it was before the request; the handler
  answers before it reads the file, so a missing file is not even seeded.
\<close>

theorem missing_field_rejected:
  "(\<not> given ty \<or> \<not> given ident \<longrightarrow>
      postLike now ty ident f = (Inr (Failure 400 ''type and id required''), f))
   \<and> (\<not> given message \<longrightarrow>
        postFeedback seedNow now nano message ctx f
          = (Inr (Failure 400 ''message required''), f))
   \<and> (\<not> given title \<or> \<not> given url \<longrightarrow>
        postAdminNews seedNow now nano title summary url img sourceId f
          = (Inr (Failure 400 ''title and url required''), f))"
proof (intro conjI impI)
  assume "\<not> given ty \<or> \<not> given ident"
  then show "postLike now ty ident f = (Inr (Failure 400 ''type and id required''), f)"
    by (cases ty; cases ident) (auto simp: postLike_def)
next
  assume "\<not> given message"
  then show "postFeedback seedNow now nano message ctx f
               = (Inr (Failure 400 ''message required''), f)"
    by (cases message) (auto simp: postFeedback_def)
next
  assume "\<not> given title \<or> \<not> given url"
  then show "postAdminNews seedNow now nano title summary url img sourceId f
               = (Inr (Failure 400 ''title and url required''), f)"
    by (cases title; cases url) (auto simp: postAdminNews_def)
qed

theorem missing_field_rejected_witness:
  "postLike ''t'' (Some ''article'') None (Holds (getInitialData ''t0''))
     = (Inr (Failure 400 ''type and id required''), Holds (getInitialData ''t0''))
   \<and> postLike ''t'' (Some []) (Some ''n1'') Missing
     = (Inr (Failure 400 ''type and id required''), Missing)
   \<and> postFeedback ''t'' ''t'' ''V1StGXR8'' None (Some (JStr ''page'')) (Holds (getInitialData ''t0''))
     = (Inr (Failure 400 ''message required''), Holds (getInitialData ''t0''))
   \<and> postAdminNews ''t'' ''t'' ''V1StGX'' (Some ''X'') None None None None Unparsable
     = (Inr (Failure 400 ''title and url required''), Unparsable)"
  using missing_field_rejected
          [where ty = "Some ''article''" and ident = None and now = "''t''"
             and f = "Holds (getInitialData ''t0'')" and message = None and seedNow = "''t''"
             and nano = "''V1StGXR8''" and ctx = "Some (JStr ''page'')" and title = None]
        missing_field_rejected
          [where ty = "Some []" and ident = "Some ''n1''" and now = "''t''" and f = Missing
             and message = None and title = None]
        missing_field_rejected
          [where ty = None and now = "''t''" and f = Unparsable and message = None
             and seedNow = "''t''" and nano = "''V1StGX''" and title = "Some ''X''"
             and url = None and summary = None and img = None and sourceId = None]
  by simp

subsection \<open>GET /api/v1/news\<close>

lemma paginate_Nil:
  "total (paginate [] a b) = 0 \<and> data (paginate [] a b) = []"
  by (simp add: paginate_def Let_def slice_Nil)

lemma valueArg_Text: "valueArg (map_option Text q) = queryArg q"
  by (cases q) simp_all

lemma getNews_ok:
  assumes "readDB now f = Inr (db, f1)"
  shows "getNews now q pageQ limitQ sourceQ f
           = (Inr (Json 200 (Some ''public, max-age=30'')
                     (paginate (keepMatching q (keepSource sourceQ (news db)))
                        (queryArg pageQ) (queryArg limitQ))), f1)"
proof -
  have src: "(if truthyValue (map_option Text sourceQ)
              then filter (\<lambda>x. strictEq (a_sourceId x) (map_option Text sourceQ)) (news db)
              else news db) = keepSource sourceQ (news db)"
    by (cases sourceQ) (simp_all add: keepSource_def)
  show ?thesis
  proof (cases q)
    case None
    then show ?thesis
      using assms
      by (simp add: getNews_def getNewsQuery_def src valueArg_Text keepMatching_def)
  next
    case (Some s)
    then show ?thesis
      using assms
      by (cases "s = []")
         (simp_all add: getNews_def getNewsQuery_def src valueArg_Text keepMatching_def
            fieldIncludes_containsCI)
  qed
qed

text \<open>
  On parameters that are absent or strings the handler keeps the articles of the given
  source, then those that contain \<open>q\<close>, and answers with the page of the result that
  \<open>page\<close> and \<open>limit\<close> select; with no match the page is empty.
\<close>

lemma news_filters_then_paginates:
  assumes "readDB now f = Inr (db, f1)"
      and "parseInt (argText ''1'' (queryArg pageQ)) = Fin p" "1 \<le> p"
      and "parseInt (argText ''10'' (queryArg limitQ)) = Fin l" "1 \<le> l" "l \<le> 100"
      and "length (news db) < 2 ^ 32"
  shows "getNews now q pageQ limitQ sourceQ f
           = (Inr (Json 200 (Some ''public, max-age=30'')
                \<lparr> page = Fin p, limit = Fin l,
                  total = length (keepMatching q (keepSource sourceQ (news db))),
                  pages = Fin \<lceil>real (length (keepMatching q (keepSource sourceQ (news db))))
                               / real_of_int l\<rceil>,
                  data = take (nat l) (drop (nat ((p - 1) * l))
                           (keepMatching q (keepSource sourceQ (news db)))) \<rparr>), f1)"
proof -
  let ?m = "keepMatching q (keepSource sourceQ (news db))"
  have "length ?m \<le> length (news db)"
    by (cases q) (auto simp: keepMatching_def keepSource_def intro: le_trans [OF length_filter_le])
  moreover have "(2::nat) ^ 32 \<le> 2 ^ 53" by simp
  ultimately have "length ?m < 2 ^ 53" using assms(7) by linarith
  then have "int (length ?m) \<le> 2 ^ 53" by simp
  then show ?thesis
    using paginate_valid [OF assms(2,3,4,5,6), of ?m] getNews_ok [OF assms(1)] by simp
qed

lemma news_no_match:
  assumes "readDB now f = Inr (db, f1)"
      and "keepMatching q (keepSource sourceQ (news db)) = []"
  shows "\<exists>e. getNews now q pageQ limitQ sourceQ f
               = (Inr (Json 200 (Some ''public, max-age=30'') e), f1)
             \<and> total e = 0 \<and> data e = []"
  using getNews_ok [OF assms(1), of q pageQ limitQ sourceQ] assms(2) by (simp add: paginate_Nil)

lemma news_second_page_example:
  "map_option (\<lambda>e. (page e, limit e, total e, pages e, map a_id (data e)))
     (sent (getNews ''t'' None (Some ''2'') (Some ''1'') None Missing))
     = Some (Fin 2, Fin 1, 2, Fin 2, [''n2''])
   \<and> map_option (\<lambda>e. (total e, map a_id (data e)))
       (sent (getNews ''t'' (Some ''TECNOLOGIA'') None None (Some ''s2'') Missing))
     = Some (1, [''n2''])
   \<and> map_option (\<lambda>e. (total e, map a_id (data e)))
       (sent (getNews ''t'' (Some ''TECNOLOGIA'') None None (Some ''s1'') Missing))
     = Some (0, [])"
proof -
  let ?d = "getInitialData ''t''"
  have r: "readDB ''t'' Missing = Inr (?d, Holds ?d)"
    by (simp add: readDB_def writeDB_def)
  have n: "length (news ?d) < 2 ^ 32" "map a_id (news ?d) = [''n1'', ''n2'']"
    by (simp_all add: getInitialData_def)
  have k0: "keepMatching None (keepSource None (news ?d)) = news ?d"
    by (simp add: keepMatching_def keepSource_def)
  have k1: "map a_id (keepMatching (Some ''TECNOLOGIA'') (keepSource (Some ''s2'') (news ?d)))
              = [''n2'']"
    by (simp add: keepMatching_def keepSource_def getInitialData_def containsCI_def
        includesStr_sublist [symmetric] js_eval)
  have k2: "keepMatching (Some ''TECNOLOGIA'') (keepSource (Some ''s1'') (news ?d)) = []"
    by (simp add: keepMatching_def keepSource_def getInitialData_def containsCI_def
        includesStr_sublist [symmetric] js_eval)
  have l1: "length (keepMatching (Some ''TECNOLOGIA'') (keepSource (Some ''s2'') (news ?d))) = 1"
    using arg_cong [OF k1, of length] by simp
  have l0: "length (news ?d) = 2" using arg_cong [OF n(2), of length] by simp
  have a0: "getNews ''t'' None (Some ''2'') (Some ''1'') None Missing
              = (Inr (Json 200 (Some ''public, max-age=30'')
                   \<lparr> page = Fin 2, limit = Fin 1, total = 2,
                     pages = Fin \<lceil>real (2::nat) / real_of_int 1\<rceil>,
                     data = take (nat 1) (drop (nat ((2 - 1) * 1)) (news ?d)) \<rparr>), Holds ?d)"
    using news_filters_then_paginates
            [OF r, of "Some ''2''" 2 "Some ''1''" 1 None None] n(1)
    by (simp add: js_eval k0 l0)
  have a1: "getNews ''t'' (Some ''TECNOLOGIA'') None None (Some ''s2'') Missing
              = (Inr (Json 200 (Some ''public, max-age=30'')
                   \<lparr> page = Fin 1, limit = Fin 10, total = 1,
                     pages = Fin \<lceil>real (1::nat) / real_of_int 10\<rceil>,
                     data = take (nat 10) (drop (nat ((1 - 1) * 10))
                              (keepMatching (Some ''TECNOLOGIA'')
                                 (keepSource (Some ''s2'') (news ?d)))) \<rparr>), Holds ?d)"
    using news_filters_then_paginates
            [OF r, of None 1 None 10 "Some ''TECNOLOGIA''" "Some ''s2''"] n(1)
    by (simp add: js_eval l1)
  have a2: "\<exists>e. getNews ''t'' (Some ''TECNOLOGIA'') None None (Some ''s1'') Missing
                  = (Inr (Json 200 (Some ''public, max-age=30'') e), Holds ?d)
                \<and> total e = 0 \<and> data e = []"
    using news_no_match [OF r k2] .
  have d0: "map a_id (take (Suc 0) (drop (Suc 0) (news ?d))) = [''n2'']"
    by (simp add: take_map [symmetric] drop_map [symmetric] n(2))
  have d1: "map a_id (take 10
              (keepMatching (Some ''TECNOLOGIA'') (keepSource (Some ''s2'') (news ?d))))
            = [''n2'']"
    by (simp add: take_map [symmetric] k1)
  from a2 obtain e where e: "getNews ''t'' (Some ''TECNOLOGIA'') None None (Some ''s1'') Missing
                  = (Inr (Json 200 (Some ''public, max-age=30'') e), Holds ?d)"
    "total e = 0" "data e = []" by blast
  show ?thesis
    unfolding a0 a1 e(1) by (simp add: d0 d1 e(2,3) pages_div)
qed

lemma getNewsQuery_repeated_q:
  assumes "readDB now f = Inr (db, f1)"
  shows "getNewsQuery now (Some (Repeated xs)) pageQ limitQ sourceQ f = (Inl TypeError, f1)"
  using assms by (simp add: getNewsQuery_def Let_def)

text \<open>
  C7, the code at the failing input. GET /news?q=a&q=b: the query parser gives the array
  ["a", "b"] for \<open>q\<close>, which is truthy and has no method \<open>toLowerCase\<close>, so the handler
  throws after it has read the file, where the claim has an empty or filtered result
  set and never an error.
\<close>

theorem news_repeated_q_throws:
  "getNewsQuery ''t'' (Some (Repeated [''a'', ''b''])) None None None
     (Holds (getInitialData ''t0''))
     = (Inl TypeError, Holds (getInitialData ''t0''))"
  by (simp add: getNewsQuery_def readDB_def Let_def)

subsection \<open>POST /api/v1/like\<close>

lemma key_not_inherited: "t @ ''s'' \<notin> set protoNames"
proof
  assume "t @ ''s'' \<in> set protoNames"
  moreover have "\<forall>k \<in> set protoNames. last k \<noteq> CHR ''s''"
    by (simp add: protoNames_def)
  ultimately have "last (t @ ''s'') \<noteq> CHR ''s''" by blast
  then show False by simp
qed

lemma getProp_plain:
  "k \<notin> set protoNames \<Longrightarrow>
     getProp obj k = (case obj k of None \<Rightarrow> Undefined | Some v \<Rightarrow> Stored v)"
  by (simp add: getProp_def split: option.splits)

lemma postLike_ok:
  assumes "t \<noteq> []" "i \<noteq> []" "readDB now f = Inr (db, f1)"
  shows "postLike now (Some t) (Some i) f
           = (Inr (Json 200 None
                     \<lparr> l_id = i, l_type = t,
                       l_likes = getProp (counterTable (liked db t i) (t @ ''s'')) i \<rparr>),
              Holds (liked db t i))"
  using assms by (simp add: postLike_def writeDB_def Let_def)

lemma liked_counter:
  assumes "i \<notin> set protoNames"
  shows "counterTable (liked db t i) (t @ ''s'') i
           = Some (incremented (getProp (counterTable db (t @ ''s'')) i))"
  using assms by (simp add: liked_def counterTable_def setProp_def protoNames_def Let_def)

lemma liked_number:
  assumes "i \<notin> set protoNames"
      and "counterTable db (t @ ''s'') i = None \<and> n = 0
           \<or> counterTable db (t @ ''s'') i = Some (Num n)"
      and "- (2 ^ 53) \<le> n" "n < 2 ^ 53"
  shows "counterTable (liked db t i) (t @ ''s'') i = Some (Num (n + 1))"
proof -
  have "\<bar>n + 1\<bar> \<le> 2 ^ 53" using assms(3,4) by simp
  then have "roundDouble (n + 1) = n + 1" by (rule roundDouble_exact)
  then show ?thesis using assms(1,2) by (auto simp: liked_counter getProp_plain)
qed

lemma postLike_rejects_iff:
  "(\<exists>msg. fst (postLike now ty ident f) = Inr (Failure 400 msg))
     \<longleftrightarrow> \<not> given ty \<or> \<not> given ident"
proof (cases "given ty \<and> given ident")
  case True
  then obtain t i where ti: "ty = Some t" "t \<noteq> []" "ident = Some i" "i \<noteq> []"
    by (cases ty; cases ident) auto
  then have "\<not> (\<exists>msg. fst (postLike now ty ident f) = Inr (Failure 400 msg))"
    by (cases f) (simp_all add: postLike_def readDB_def writeDB_def Let_def)
  then show ?thesis using True by simp
next
  case False
  then have "postLike now ty ident f = (Inr (Failure 400 ''type and id required''), f)"
    by (cases ty; cases ident) (auto simp: postLike_def)
  then show ?thesis using False by auto
qed

lemma like_increments_plain_key:
  assumes "t \<noteq> []" "i \<noteq> []" "i \<notin> set protoNames" "readDB now f = Inr (db, f1)"
      and "counterTable db (t @ ''s'') i = None \<and> n = 0
           \<or> counterTable db (t @ ''s'') i = Some (Num n)"
      and "- (2 ^ 53) \<le> n" "n < 2 ^ 53"
  shows "postLike now (Some t) (Some i) f
           = (Inr (Json 200 None \<lparr> l_id = i, l_type = t, l_likes = Stored (Num (n + 1)) \<rparr>),
              Holds (liked db t i))"
    and "counterTable (liked db t i) (t @ ''s'') i = Some (Num (n + 1))"
    and "readDB later (Holds (liked db t i)) = Inr (liked db t i, Holds (liked db t i))"
proof -
  show c: "counterTable (liked db t i) (t @ ''s'') i = Some (Num (n + 1))"
    using assms(3,5,6,7) by (rule liked_number)
  show "postLike now (Some t) (Some i) f
           = (Inr (Json 200 None \<lparr> l_id = i, l_type = t, l_likes = Stored (Num (n + 1)) \<rparr>),
              Holds (liked db t i))"
    using postLike_ok [OF assms(1,2,4)] c assms(3) by (simp add: getProp_plain)
  show "readDB later (Holds (liked db t i)) = Inr (liked db t i, Holds (liked db t i))"
    by (simp add: readDB_def)
qed

lemma like_twice_plain_key:
  assumes "i \<notin> set protoNames"
      and "counterTable db (t @ ''s'') i = None \<and> n = 0
           \<or> counterTable db (t @ ''s'') i = Some (Num n)"
      and "- (2 ^ 53) \<le> n" "n + 1 < 2 ^ 53"
  shows "counterTable (liked (liked db t i) t i) (t @ ''s'') i = Some (Num (n + 2))"
proof -
  have "counterTable (liked db t i) (t @ ''s'') i = Some (Num (n + 1))"
    using assms by (intro liked_number) simp_all
  then have "counterTable (liked (liked db t i) t i) (t @ ''s'') i = Some (Num (n + 1 + 1))"
    using assms(1,3,4) by (intro liked_number) simp_all
  then show ?thesis by simp
qed

lemma liked_frame:
  "news (liked db t i) = news db" "images (liked db t i) = images db"
  "highlights (liked db t i) = highlights db" "sources (liked db t i) = sources db"
  "trending (liked db t i) = trending db" "feedback (liked db t i) = feedback db"
  "k \<noteq> t @ ''s'' \<Longrightarrow> likes (liked db t i) k = likes db k"
  "j \<noteq> i \<Longrightarrow> counterTable (liked db t i) (t @ ''s'') j = counterTable db (t @ ''s'') j"
  by (simp_all add: liked_def counterTable_def setProp_def Let_def)

lemma liked_creates_table:
  "likes db (t @ ''s'') = None \<Longrightarrow> i \<notin> set protoNames \<Longrightarrow>
     likes (liked db t i) (t @ ''s'') = Some [i \<mapsto> Num 1]"
  by (simp add: liked_def counterTable_def setProp_def getProp_def protoNames_def Let_def)

text \<open>
  C5, the code at the failing input. On the seed document,
  POST /like {type: "article", id: "constructor"} finds no own counter but the member
  \<open>constructor\<close> of Object.prototype, stores the string that the concatenation with 1
  gives, and returns it as the like count. The claim gives 1 (an absent counter counted
  as 0).
\<close>

theorem like_inherited_key:
  "postLike ''t'' (Some ''article'') (Some ''constructor'') (Holds (getInitialData ''t0''))
     = (Inr (Json 200 None
               \<lparr> l_id = ''constructor'', l_type = ''article'',
                 l_likes = Stored (Str ''function Object() { [native code] }1'') \<rparr>),
        Holds (liked (getInitialData ''t0'') ''article'' ''constructor''))
   \<and> counterTable (getInitialData ''t0'') ''articles'' ''constructor'' = None
   \<and> counterTable (liked (getInitialData ''t0'') ''article'' ''constructor'')
         ''articles'' ''constructor''
       = Some (Str ''function Object() { [native code] }1'')"
  by (simp add: postLike_def readDB_def writeDB_def liked_def counterTable_def
      getInitialData_def getProp_def setProp_def protoNames_def builtinText_def Let_def)

text \<open>
  C10, the code at the failing input. POST /like {type: "video", id: "constructor"} on
  the seed document creates the counter object \<open>likes.videos\<close> and answers 200, but the
  counter it sets for the id is the string the inherited member gives, not 1.
\<close>

theorem like_new_type_inherited_key:
  "postLike ''t'' (Some ''video'') (Some ''constructor'') (Holds (getInitialData ''t0''))
     = (Inr (Json 200 None
               \<lparr> l_id = ''constructor'', l_type = ''video'',
                 l_likes = Stored (Str ''function Object() { [native code] }1'') \<rparr>),
        Holds (liked (getInitialData ''t0'') ''video'' ''constructor''))
   \<and> likes (getInitialData ''t0'') ''videos'' = None
   \<and> likes (liked (getInitialData ''t0'') ''video'' ''constructor'') ''videos''
       = Some [''constructor'' \<mapsto> Str ''function Object() { [native code] }1'']"
  by (simp add: postLike_def readDB_def writeDB_def liked_def counterTable_def
      getInitialData_def getProp_def setProp_def protoNames_def builtinText_def Let_def)

subsection \<open>GET /api/v1/news/:id\<close>

lemma getArticle_not_found_iff:
  assumes "readDB now f = Inr (db, f1)"
  shows "fst (getArticle now ident f) = Inr (Failure 404 ''Not found'')
           \<longleftrightarrow> ident \<notin> a_id ` set (news db)"
proof (cases "find (\<lambda>n. a_id n = ident) (news db)")
  case None
  then have "ident \<notin> a_id ` set (news db)" by (auto simp: find_None_iff)
  then show ?thesis using assms None by (simp add: getArticle_def)
next
  case (Some item)
  then have "item \<in> set (news db) \<and> a_id item = ident"
    by (auto simp: find_Some_iff)
  then have "ident \<in> a_id ` set (news db)" by blast
  then show ?thesis
    using assms Some by (cases "likes db ''articles''") (simp_all add: getArticle_def)
qed

lemma getArticle_found_plain_key:
  assumes "readDB now f = Inr (db, f1)"
      and "find (\<lambda>n. a_id n = ident) (news db) = Some item"
      and "likes db ''articles'' = Some counters" "ident \<notin> set protoNames"
      and "counters ident = None \<and> n = 0 \<or> counters ident = Some (Num n)"
  shows "getArticle now ident f
           = (Inr (Json 200 (Some ''public, max-age=30'') (item, Stored (Num n))), f1)"
proof -
  have "a_id item = ident" using assms(2) by (auto simp: find_Some_iff)
  then show ?thesis
    using assms by (auto simp: getArticle_def getProp_plain)
qed

text \<open>
  C8, the code at the failing input. For a stored article with the id "constructor" and
  no recorded like, GET /news/constructor answers with the inherited member of
  Object.prototype as \<open>likes\<close> (a function, which the JSON body leaves out), not with
  0. On a document whose \<open>likes\<close> has no \<open>articles\<close> object the handler throws.
\<close>

theorem article_inherited_key:
  "getArticle ''t''  ''constructor''
     (Holds ((getInitialData ''t0'')
        \<lparr> news := [\<lparr> a_id = ''constructor'', a_title = Some ''X'', a_summary = Some [],
                     a_url = ''http://y'', a_image = [], a_publishedAt = ''t0'',
                     a_sourceId = None \<rparr>] \<rparr>))
     = (Inr (Json 200 (Some ''public, max-age=30'')
               (\<lparr> a_id = ''constructor'', a_title = Some ''X'', a_summary = Some [],
                  a_url = ''http://y'', a_image = [], a_publishedAt = ''t0'',
                  a_sourceId = None \<rparr>,
                Builtin ''constructor'')),
        Holds ((getInitialData ''t0'')
        \<lparr> news := [\<lparr> a_id = ''constructor'', a_title = Some ''X'', a_summary = Some [],
                     a_url = ''http://y'', a_image = [], a_publishedAt = ''t0'',
                     a_sourceId = None \<rparr>] \<rparr>))
   \<and> fst (getArticle ''t'' ''n1'' (Holds ((getInitialData ''t0'') \<lparr> likes := Map.empty \<rparr>)))
       = Inl TypeError"
  by (simp add: getArticle_def readDB_def getInitialData_def getProp_def protoNames_def)

subsection \<open>POST /api/v1/admin/news\<close>

lemma paginate_first_page:
  "\<exists>rest. data (paginate (x # xs) ArgUndefined b) = x # rest"
proof -
  obtain l where L: "jsMax (Fin 1) (jsMin (Fin 100)
                       (orElse (parseInt (argText ''10'' b)) (Fin 10))) = Fin l"
    and l1: "1 \<le> l" and l100: "l \<le> 100"
    using limit_range by blast
  have P: "jsMax (Fin 1) (orElse (parseInt (argText ''1'' ArgUndefined)) (Fin 1)) = Fin 1"
    by (simp add: js_eval)
  have z: "toNumber 0 = Fin 0" "toNumber l = Fin l"
    using l1 l100 by (simp_all add: toNumber_exact)
  have s: "jsMul (jsSub (Fin 1) (Fin 1)) (Fin l) = Fin 0"
    by (simp add: jsSub_def z)
  have "slice (x # xs) (Fin 0) (Fin (0 + l)) = take (nat l) (drop (nat 0) (x # xs))"
    using l1 by (intro slice_exact) simp_all
  moreover have "take (nat l) (x # xs) = x # take (nat l - 1) xs"
    using l1 by (cases "nat l") simp_all
  ultimately have "data (paginate (x # xs) ArgUndefined b) = x # take (nat l - 1) xs"
    unfolding paginate_def P L Let_def by (simp add: s z)
  then show ?thesis by blast
qed

lemma postAdminNews_ok:
  assumes "t \<noteq> []" "u \<noteq> []" "readDB seedNow f = Inr (db, f1)"
  shows "postAdminNews seedNow now nano (Some t) summary (Some u) img sourceId f
           = (Inr (Json 200 None (newArticle now nano t summary u img sourceId)),
              Holds (db\<lparr> news := newArticle now nano t summary u img sourceId # news db \<rparr>))"
  using assms by (simp add: postAdminNews_def writeDB_def Let_def)

text \<open>
  C9, as stated, fails: the generated id can equal an existing one. Two requests for
  which nanoid(6) returns the same string leave two articles with the same id.
\<close>

theorem admin_news_id_collides:
  "newsIds (snd (postAdminNews ''t1'' ''t1'' ''V1StGX'' (Some ''X'') None (Some ''http://y'')
                   None None Missing))
     = [''nV1StGX'', ''n1'', ''n2'']
   \<and> newsIds (snd (postAdminNews ''t2'' ''t2'' ''V1StGX'' (Some ''Z'') None (Some ''http://w'')
                     None None
                     (snd (postAdminNews ''t1'' ''t1'' ''V1StGX'' (Some ''X'') None
                             (Some ''http://y'') None None Missing))))
     = [''nV1StGX'', ''nV1StGX'', ''n1'', ''n2'']"
proof -
  let ?a = "newArticle ''t1'' ''V1StGX'' ''X'' None ''http://y'' None None"
  let ?b = "newArticle ''t2'' ''V1StGX'' ''Z'' None ''http://w'' None None"
  let ?d0 = "getInitialData ''t1''"
  let ?d1 = "?d0\<lparr> news := ?a # news ?d0 \<rparr>"
  let ?d2 = "?d1\<lparr> news := ?b # news ?d1 \<rparr>"
  have r1: "readDB ''t1'' Missing = Inr (?d0, Holds ?d0)"
    by (simp add: readDB_def writeDB_def)
  have p1: "postAdminNews ''t1'' ''t1'' ''V1StGX'' (Some ''X'') None (Some ''http://y'')
              None None Missing = (Inr (Json 200 None ?a), Holds ?d1)"
    by (rule postAdminNews_ok [OF _ _ r1]) simp_all
  have r2: "readDB ''t2'' (Holds ?d1) = Inr (?d1, Holds ?d1)"
    by (simp add: readDB_def)
  have p2: "postAdminNews ''t2'' ''t2'' ''V1StGX'' (Some ''Z'') None (Some ''http://w'')
              None None (Holds ?d1) = (Inr (Json 200 None ?b), Holds ?d2)"
    by (rule postAdminNews_ok [OF _ _ r2]) simp_all
  have ids: "map a_id (news ?d0) = [''n1'', ''n2'']"
    by (simp add: getInitialData_def)
  show ?thesis
    by (simp only: p1 p2 snd_conv newsIds.simps) (simp add: ids newArticle_def)
qed

text \<open>
  C9, amended. POST /admin/news with title and url given answers 200 with the new
  article and persists the document with that article put first in news, so that it is
  the first entry of the first page of GET /news. The article carries the id "n"
  followed by the string nanoid returned, the clock reading as publishedAt, the empty
  string for an omitted summary or image and null for an omitted sourceId. No check is
  made against the existing ids: ids that were unique stay unique exactly when the new
  id is not among them.
\<close>

theorem admin_news_prepends:
  "title = Some t \<and> t \<noteq> [] \<and> url = Some u \<and> u \<noteq> [] \<and> readDB seedNow f = Inr (db, f1) \<longrightarrow>
     postAdminNews seedNow now nano title summary url img sourceId f
       = (Inr (Json 200 None (newArticle now nano t summary u img sourceId)),
          Holds (db\<lparr> news := newArticle now nano t summary u img sourceId # news db \<rparr>))
     \<and> newArticle now nano t summary u img sourceId
         = \<lparr> a_id = ''n'' @ nano, a_title = Some t,
             a_summary = Some (case summary of None \<Rightarrow> [] | Some x \<Rightarrow> x),
             a_url = u,
             a_image = (case img of None \<Rightarrow> [] | Some x \<Rightarrow> x),
             a_publishedAt = now,
             a_sourceId = (case sourceId of
                             None \<Rightarrow> None
                           | Some x \<Rightarrow> if x = [] then None else Some x) \<rparr>
     \<and> (\<exists>rest.
           map_option data
             (sent (getNews later None None limitQ None
                      (Holds (db\<lparr> news := newArticle now nano t summary u img sourceId
                                          # news db \<rparr>))))
             = Some (newArticle now nano t summary u img sourceId # rest))
     \<and> (distinct (map a_id (news db)) \<longrightarrow>
          (distinct (map a_id (newArticle now nano t summary u img sourceId # news db))
           \<longleftrightarrow> ''n'' @ nano \<notin> set (map a_id (news db))))"
proof (intro impI)
  assume a: "title = Some t \<and> t \<noteq> [] \<and> url = Some u \<and> u \<noteq> [] \<and> readDB seedNow f = Inr (db, f1)"
  let ?item = "newArticle now nano t summary u img sourceId"
  let ?db = "db\<lparr> news := ?item # news db \<rparr>"
  have post: "postAdminNews seedNow now nano title summary url img sourceId f
                = (Inr (Json 200 None ?item), Holds ?db)"
    using a by (simp add: postAdminNews_ok)
  have item: "?item = \<lparr> a_id = ''n'' @ nano, a_title = Some t,
             a_summary = Some (case summary of None \<Rightarrow> [] | Some x \<Rightarrow> x),
             a_url = u,
             a_image = (case img of None \<Rightarrow> [] | Some x \<Rightarrow> x),
             a_publishedAt = now,
             a_sourceId = (case sourceId of
                             None \<Rightarrow> None
                           | Some x \<Rightarrow> if x = [] then None else Some x) \<rparr>"
    by (cases summary; cases img; cases sourceId) (simp_all add: newArticle_def)
  have "readDB later (Holds ?db) = Inr (?db, Holds ?db)" by (simp add: readDB_def)
  then have "getNews later None None limitQ None (Holds ?db)
               = (Inr (Json 200 (Some ''public, max-age=30'')
                    (paginate (?item # news db) ArgUndefined (queryArg limitQ))), Holds ?db)"
    by (simp add: getNews_ok keepMatching_def keepSource_def)
  moreover obtain rest
    where "data (paginate (?item # news db) ArgUndefined (queryArg limitQ)) = ?item # rest"
    using paginate_first_page [of ?item "news db" "queryArg limitQ"] by blast
  ultimately have first: "\<exists>rest. map_option data
             (sent (getNews later None None limitQ None (Holds ?db))) = Some (?item # rest)"
    by simp
  have ids: "distinct (map a_id (news db)) \<longrightarrow>
          (distinct (map a_id (?item # news db)) \<longleftrightarrow> ''n'' @ nano \<notin> set (map a_id (news db)))"
    by (simp add: newArticle_def)
  from post item first ids
  show "postAdminNews seedNow now nano title summary url img sourceId f
       = (Inr (Json 200 None ?item), Holds ?db)
     \<and> ?item
         = \<lparr> a_id = ''n'' @ nano, a_title = Some t,
             a_summary = Some (case summary of None \<Rightarrow> [] | Some x \<Rightarrow> x),
             a_url = u,
             a_image = (case img of None \<Rightarrow> [] | Some x \<Rightarrow> x),
             a_publishedAt = now,
             a_sourceId = (case sourceId of
                             None \<Rightarrow> None
                           | Some x \<Rightarrow> if x = [] then None else Some x) \<rparr>
     \<and> (\<exists>rest.
           map_option data
             (sent (getNews later None None limitQ None (Holds ?db)))
             = Some (?item # rest))
     \<and> (distinct (map a_id (news db)) \<longrightarrow>
          (distinct (map a_id (?item # news db))
           \<longleftrightarrow> ''n'' @ nano \<notin> set (map a_id (news db))))"
    by blast
qed

theorem admin_news_prepends_witness:
  "postAdminNews ''t1'' ''t1'' ''V1StGX'' (Some ''X'') None (Some ''http://y'') None None Missing
     = (Inr (Json 200 None
          \<lparr> a_id = ''nV1StGX'', a_title = Some ''X'', a_summary = Some [],
            a_url = ''http://y'', a_image = [], a_publishedAt = ''t1'', a_sourceId = None \<rparr>),
        Holds ((getInitialData ''t1'')
          \<lparr> news := \<lparr> a_id = ''nV1StGX'', a_title = Some ''X'', a_summary = Some [],
                      a_url = ''http://y'', a_image = [], a_publishedAt = ''t1'',
                      a_sourceId = None \<rparr> # news (getInitialData ''t1'') \<rparr>))
   \<and> distinct [''nV1StGX'', ''n1'', ''n2'']"
proof -
  have r: "readDB ''t1'' Missing = Inr (getInitialData ''t1'', Holds (getInitialData ''t1''))"
    by (simp add: readDB_def writeDB_def)
  have n: "newArticle ''t1'' ''V1StGX'' ''X'' None ''http://y'' None None
             = \<lparr> a_id = ''nV1StGX'', a_title = Some ''X'', a_summary = Some [],
                 a_url = ''http://y'', a_image = [], a_publishedAt = ''t1'', a_sourceId = None \<rparr>"
    by (simp add: newArticle_def)
  have "postAdminNews ''t1'' ''t1'' ''V1StGX'' (Some ''X'') None (Some ''http://y'') None None
          Missing
        = (Inr (Json 200 None (newArticle ''t1'' ''V1StGX'' ''X'' None ''http://y'' None None)),
           Holds ((getInitialData ''t1'')
             \<lparr> news := newArticle ''t1'' ''V1StGX'' ''X'' None ''http://y'' None None
                        # news (getInitialData ''t1'') \<rparr>))"
    using admin_news_prepends
            [where title = "Some ''X''" and t = "''X''" and url = "Some ''http://y''"
               and u = "''http://y''" and seedNow = "''t1''" and f = Missing
               and db = "getInitialData ''t1''" and ?f1.0 = "Holds (getInitialData ''t1'')"
               and now = "''t1''" and nano = "''V1StGX''" and summary = None and img = None
               and sourceId = None] r
    by blast
  then show ?thesis by (simp add: n)
qed

end
